theory Spec2Isabelle
  imports Complex_Main
begin

section \<open>HyperKart 3D: the race simulation core of src/src/main.jsx\<close>

text \<open>
  The per-frame callback of the \<open>Kart\<close> component (lines 425 to 493) and the race store
  (lines 518 to 533) are embedded phase by phase, in the order of the source.

  Numbers. JavaScript numbers are IEEE doubles; they are modelled as real numbers, so
  rounding and signed zeros are idealised away. One operation of the callback leaves the
  finite numbers on finite inputs: the radial scaling \<open>pos *= bound / r\<close> at \<open>r = 0\<close>, where
  the factor is infinite and both coordinates (which are zero there) become NaN. A number
  that may be NaN is a \<open>real option\<close>, with \<open>None\<close> for NaN; every comparison with NaN is
  false, as in the source language.
  For a positive \<open>r\<close> so small that \<open>bound / r\<close> exceeds \<open>Number.MAX_VALUE\<close> the factor is
  Infinity in the source; a session stays far from such radii (the kart starts at radius 17
  and is put back into the ring by every callback), the model keeps the real quotient
  there, and what is stated about small radii bounds the factor by \<open>MAX_VALUE\<close>.

  Cars. The callback divides by \<open>maxSpeed\<close> in line 440. Every car of \<open>CARS\<close>, the only
  cars a selection can hold, has a positive \<open>maxSpeed\<close>; for a car with \<open>maxSpeed = 0\<close> the
  source computes 0 / 0 there and the heading becomes NaN once a steering key is held, which
  the model does not follow.
\<close>

subsection \<open>Configuration data (lines 43 to 80)\<close>


record car =
  car_id :: string
  car_name :: string
  accel :: real
  maxSpeed :: real
  handling :: real

record track =
  track_id :: string
  track_name :: string
  theme :: string
  sky :: string
  fog :: string
  seatColor :: string
  turf :: string


definition sprinter :: car where
  "sprinter = \<lparr>car_id = ''sprinter'', car_name = ''Sprinter'',
                accel = 19 / 2, maxSpeed = 28, handling = 1\<rparr>"

definition torque :: car where
  "torque = \<lparr>car_id = ''torque'', car_name = ''Torque'',
              accel = 15 / 2, maxSpeed = 34, handling = 4 / 5\<rparr>"

definition glider :: car where
  "glider = \<lparr>car_id = ''glider'', car_name = ''Glider'',
              accel = 17 / 2, maxSpeed = 31, handling = 11 / 10\<rparr>"

definition bulldog :: car where
  "bulldog = \<lparr>car_id = ''bulldog'', car_name = ''Bulldog'',
               accel = 13 / 2, maxSpeed = 36, handling = 7 / 10\<rparr>"

definition CARS :: "car list" where
  "CARS = [sprinter, torque, glider, bulldog]"

definition classic :: track where
  "classic = \<lparr>track_id = ''classic'', track_name = ''Stadium Classic'', theme = ''classic'',
               sky = ''#87ceeb'', fog = ''#a6d5f7'', seatColor = ''#334155'', turf = ''#2e7d32''\<rparr>"

definition city :: track where
  "city = \<lparr>track_id = ''city'', track_name = ''Stadium City'', theme = ''city'',
            sky = ''#cfe3ff'', fog = ''#9bb7e2'', seatColor = ''#1f2937'', turf = ''#1b5e20''\<rparr>"

definition west :: track where
  "west = \<lparr>track_id = ''west'', track_name = ''Stadium Wild West'', theme = ''west'',
            sky = ''#ffcc80'', fog = ''#ffc080'', seatColor = ''#5d4037'', turf = ''#8d6e63''\<rparr>"

definition TRACKS :: "track list" where
  "TRACKS = [classic, city, west]"

definition DEFAULT_LAPS :: int where
  "DEFAULT_LAPS = 3"


subsection \<open>Numeric helpers (lines 85, 511 to 513, and the Math functions used)\<close>

definition clamp :: "real \<Rightarrow> real \<Rightarrow> real \<Rightarrow> real" where
  "clamp v mn mx = min mx (max mn v)"

text \<open>The remainder operator \<open>%\<close> on numbers: the quotient is truncated towards zero, so
  the result has the sign of the dividend.\<close>

definition trunc :: "real \<Rightarrow> int" where
  "trunc q = (if q < 0 then \<lceil>q\<rceil> else \<lfloor>q\<rfloor>)"

definition jsrem :: "real \<Rightarrow> real \<Rightarrow> real" where
  "jsrem a b = a - b * of_int (trunc (a / b))"

definition normalizeAngle :: "real \<Rightarrow> real" where
  "normalizeAngle a =
    (let x = jsrem a (2 * pi);
         x1 = (if x < - pi then x + 2 * pi else x);
         x2 = (if x1 > pi then x1 - 2 * pi else x1)
     in x2)"

definition hypot :: "real \<Rightarrow> real \<Rightarrow> real" where
  "hypot x z = sqrt (x * x + z * z)"


text \<open>\<open>Math.atan2(z, x)\<close>: the angle of the point \<open>(x, z)\<close>, in \<open>(-pi, pi]\<close>.\<close>

definition atan2 :: "real \<Rightarrow> real \<Rightarrow> real" where
  "atan2 z x =
    (if 0 < x then arctan (z / x)
     else if x < 0 then (if 0 \<le> z then arctan (z / x) + pi else arctan (z / x) - pi)
     else if 0 < z then pi / 2
     else if z < 0 then - (pi / 2)
     else 0)"

text \<open>Comparisons of a number that may be NaN with a finite number.\<close>

definition lt :: "real option \<Rightarrow> real \<Rightarrow> bool" where
  "lt a b = (case a of None \<Rightarrow> False | Some x \<Rightarrow> x < b)"

definition gt :: "real option \<Rightarrow> real \<Rightarrow> bool" where
  "gt a b = (case a of None \<Rightarrow> False | Some x \<Rightarrow> x > b)"

definition le :: "real option \<Rightarrow> real \<Rightarrow> bool" where
  "le a b = (case a of None \<Rightarrow> False | Some x \<Rightarrow> x \<le> b)"

definition ge :: "real option \<Rightarrow> real \<Rightarrow> bool" where
  "ge a b = (case a of None \<Rightarrow> False | Some x \<Rightarrow> x \<ge> b)"

subsection \<open>State (lines 416 to 423, 520)\<close>

record controls =
  left :: bool
  right :: bool
  up :: bool
  down :: bool

text \<open>The refs of the \<open>Kart\<close> component. \<open>pos\<close> holds the track-plane coordinates
  \<open>(x, z)\<close> of the vector (the height 0.35 is never written); \<open>None\<close> is the vector whose
  coordinates are NaN.\<close>

record kart =
  vel :: real
  yaw :: real
  pos :: "(real \<times> real) option"
  lastAngle :: "real option"
  checkpoint :: bool
  lastBoostTime :: real

record race =
  currentLap :: int
  totalLaps :: int
  finished :: bool
  innerR :: real
  outerR :: real

text \<open>One call of the frame callback receives the clock's elapsed time, the frame delta
  and the current value of \<open>controlRef.current\<close> (which may be null).\<close>

record frameIn =
  ctl :: "controls option"
  elapsedTime :: real
  delta :: real

definition kartInit :: kart where
  "kartInit = \<lparr>vel = 0, yaw = 0, pos = Some (12 + 5, 0), lastAngle = Some 0,
                checkpoint = False, lastBoostTime = 0\<rparr>"

definition raceStoreInit :: race where
  "raceStoreInit = \<lparr>currentLap = 1, totalLaps = DEFAULT_LAPS, finished = False,
                     innerR = 12, outerR = 22\<rparr>"

subsection \<open>The frame callback, phase by phase (lines 425 to 487)\<close>

definition clampDt :: "real \<Rightarrow> real" where
  "clampDt d = (if d > 5 / 100 then 5 / 100 else d)"

definition controlsOf :: "controls option \<Rightarrow> controls" where
  "controlsOf c = (case c of None \<Rightarrow> \<lparr>left = False, right = False, up = False, down = False\<rparr>
                   | Some x \<Rightarrow> x)"

text \<open>Acceleration and braking (lines 430 to 437).\<close>

definition longitudinal :: "car \<Rightarrow> controls \<Rightarrow> real \<Rightarrow> real \<Rightarrow> real" where
  "longitudinal carStats c d v =
    (let acc = accel carStats * (6 / 10);
         braking = accel carStats * (8 / 10);
         mx = maxSpeed carStats;
         v1 = (if up c then clamp (v + acc * d) (- mx * (3 / 10)) mx
               else clamp (v - (acc * (4 / 10)) * d) (- mx * (3 / 10)) mx);
         v2 = (if down c then clamp (v1 - braking * d) (- mx * (3 / 10)) mx else v1)
     in v2)"

text \<open>Steering (lines 440 to 443); the first argument after the frame delta is the speed
  the longitudinal phase has just written.\<close>

definition steering :: "car \<Rightarrow> controls \<Rightarrow> real \<Rightarrow> real \<Rightarrow> real \<Rightarrow> real" where
  "steering carStats c d v y =
    (let speedFactor = clamp (\<bar>v\<bar> / maxSpeed carStats) 0 1;
         steerStrength = handling carStats * ((9 / 10) * speedFactor + 1 / 10);
         y1 = (if left c then y + (18 / 10) * steerStrength * d else y);
         y2 = (if right c then y1 - (18 / 10) * steerStrength * d else y1)
     in y2)"

text \<open>Position integration (lines 446, 447); a NaN position stays NaN.\<close>

definition integrate :: "real \<Rightarrow> real \<Rightarrow> real \<Rightarrow> (real \<times> real) option \<Rightarrow> (real \<times> real) option" where
  "integrate y v d p =
    (case p of None \<Rightarrow> None
     | Some (x, z) \<Rightarrow> Some (x + cos y * v * d, z + sin y * v * d))"

definition radius :: "(real \<times> real) option \<Rightarrow> real option" where
  "radius p = (case p of None \<Rightarrow> None | Some (x, z) \<Rightarrow> Some (hypot x z))"

text \<open>\<open>const k = bound / r; pos.x *= k; pos.z *= k\<close>. At \<open>r = 0\<close> the factor is infinite
  (or NaN when the bound is zero too) and both coordinates, being zero, become NaN.\<close>

definition scalePos :: "real \<Rightarrow> real option \<Rightarrow> (real \<times> real) option \<Rightarrow> (real \<times> real) option" where
  "scalePos bound r p =
    (case r of None \<Rightarrow> None
     | Some rv \<Rightarrow>
        (case p of None \<Rightarrow> None
         | Some (x, z) \<Rightarrow>
            if rv = 0 then None else Some (x * (bound / rv), z * (bound / rv))))"

text \<open>Track boundary (lines 452 to 459): two independent tests on the radius computed
  before either of them.\<close>

definition boundary ::
  "real \<Rightarrow> real \<Rightarrow> real option \<Rightarrow> (real \<times> real) option \<times> real \<Rightarrow> (real \<times> real) option \<times> real" where
  "boundary iR oR r pv =
    (let pv1 = (if lt r iR then (scalePos iR r (fst pv), snd pv * (6 / 10)) else pv);
         pv2 = (if gt r oR then (scalePos oR r (fst pv1), snd pv1 * (6 / 10)) else pv1)
     in pv2)"

definition angleOf :: "(real \<times> real) option \<Rightarrow> real option" where
  "angleOf p = (case p of None \<Rightarrow> None | Some (x, z) \<Rightarrow> Some (atan2 z x))"

text \<open>The values the later phases read: heading, position and speed after the boundary
  phase, the radius \<open>r\<close> of line 450 and the angle \<open>ang\<close> of line 462.\<close>

record frame =
  fyaw :: real
  fpos :: "(real \<times> real) option"
  fvel :: real
  fr :: "real option"
  fang :: "real option"

definition motion :: "car \<Rightarrow> controls \<Rightarrow> real \<Rightarrow> real \<Rightarrow> real \<Rightarrow> kart \<Rightarrow> frame" where
  "motion carStats c d iR oR k =
    (let v1 = longitudinal carStats c d (vel k);
         y1 = steering carStats c d v1 (yaw k);
         p1 = integrate y1 v1 d (pos k);
         r = radius p1;
         pv = boundary iR oR r (p1, v1)
     in \<lparr>fyaw = y1, fpos = fst pv, fvel = snd pv, fr = r, fang = angleOf (fst pv)\<rparr>)"

text \<open>Boost pads (lines 463 to 471).\<close>

definition pads :: "real list" where
  "pads = [pi / 4, pi, (3 * pi) / 2]"

definition onPad :: "real \<Rightarrow> real \<Rightarrow> real option \<Rightarrow> real option \<Rightarrow> real \<Rightarrow> bool" where
  "onPad iR oR r ang a =
    (let centerR = (iR + oR) / 2;
         diff = map_option (\<lambda>g. \<bar>normalizeAngle (g - a)\<bar>) ang
     in lt diff (pi / 12) \<and> lt (map_option (\<lambda>rv. \<bar>rv - centerR\<bar>) r) ((oR - iR) / 3))"

definition boostStep ::
  "real \<Rightarrow> real \<Rightarrow> real \<Rightarrow> real \<Rightarrow> real option \<Rightarrow> real option \<Rightarrow> real \<times> real \<Rightarrow> real \<Rightarrow> real \<times> real" where
  "boostStep mx t iR oR r ang vl a =
    (if onPad iR oR r ang a \<and> t - snd vl > 1 then (min (mx * (12 / 10)) (fst vl + 8), t)
     else vl)"

definition boostPads ::
  "real \<Rightarrow> real \<Rightarrow> real \<Rightarrow> real \<Rightarrow> real option \<Rightarrow> real option \<Rightarrow> real \<times> real \<Rightarrow> real \<times> real" where
  "boostPads mx t iR oR r ang vl = foldl (boostStep mx t iR oR r ang) vl pads"

text \<open>Lap counting (lines 474 to 486).\<close>

definition crossedStart :: "real \<Rightarrow> real \<Rightarrow> real option \<Rightarrow> real option \<Rightarrow> real option \<Rightarrow> bool" where
  "crossedStart iR oR r angPrev ang =
    (let centerR = (iR + oR) / 2
     in lt angPrev 0 \<and> ge ang 0 \<and> lt (map_option (\<lambda>rv. \<bar>rv - centerR\<bar>) r) ((oR - iR) / 2))"

definition crossedHalf :: "real option \<Rightarrow> real option \<Rightarrow> bool" where
  "crossedHalf angPrev ang =
    ((lt angPrev pi \<and> ge ang pi) \<or> (gt angPrev (- pi) \<and> le ang (- pi)))"

text \<open>The updater passed to \<open>setRace\<close> (lines 479 to 483).\<close>

definition lapUpdate :: "race \<Rightarrow> race" where
  "lapUpdate s =
    (let newLap = currentLap s + 1;
         fin = (newLap > totalLaps s)
     in s\<lparr>currentLap := newLap, finished := fin\<rparr>)"

text \<open>The checkpoint flag as line 478 reads it, after the assignment of line 477.\<close>

definition armed :: "bool \<Rightarrow> real option \<Rightarrow> real option \<Rightarrow> bool" where
  "armed cp angPrev ang = (if crossedHalf angPrev ang then True else cp)"

definition lapDetect ::
  "real \<Rightarrow> real \<Rightarrow> real option \<Rightarrow> real option \<Rightarrow> real option \<Rightarrow> bool \<times> race \<Rightarrow> bool \<times> race" where
  "lapDetect iR oR r angPrev ang cs =
    (let cp = armed (fst cs) angPrev ang
     in if crossedStart iR oR r angPrev ang \<and> cp then (False, lapUpdate (snd cs))
        else (cp, snd cs))"

text \<open>The whole callback: the kart's refs and the race store before, and after.\<close>

definition tick :: "car \<Rightarrow> frameIn \<Rightarrow> kart \<times> race \<Rightarrow> kart \<times> race" where
  "tick carStats i w =
    (let k = fst w; s = snd w;
         f = motion carStats (controlsOf (ctl i)) (clampDt (delta i)) (innerR s) (outerR s) k;
         vl = boostPads (maxSpeed carStats) (elapsedTime i) (innerR s) (outerR s) (fr f) (fang f)
                (fvel f, lastBoostTime k);
         cs = lapDetect (innerR s) (outerR s) (fr f) (lastAngle k) (fang f) (checkpoint k, s)
     in (\<lparr>vel = fst vl, yaw = fyaw f, pos = fpos f, lastAngle = fang f,
          checkpoint = fst cs, lastBoostTime = snd vl\<rparr>, snd cs))"

fun run :: "car \<Rightarrow> frameIn list \<Rightarrow> kart \<times> race \<Rightarrow> kart \<times> race" where
  "run carStats [] w = w"
| "run carStats (i # ins) w = run carStats ins (tick carStats i w)"

text \<open>A race session (lines 551 to 585, 724): mounting \<open>RaceScene\<close> resets the lap
  fields of the store to the selected lap count and mounts a fresh \<open>Kart\<close> with the
  selected car; the selected track is handed to the scenery only.\<close>

definition startRace :: "int \<Rightarrow> race \<Rightarrow> race" where
  "startRace n s = s\<lparr>currentLap := 1, totalLaps := n, finished := False\<rparr>"


subsection \<open>Vocabulary of the properties\<close>

text \<open>The \<open>finished\<close> flag of the store after each callback of a run, and the number of
  times a sequence of flags, read after an initial value, goes from false to true and
  from true to false.\<close>

fun finishedTrace :: "car \<Rightarrow> frameIn list \<Rightarrow> kart \<times> race \<Rightarrow> bool list" where
  "finishedTrace c [] w = []"
| "finishedTrace c (i # ins) w = finished (snd (tick c i w)) # finishedTrace c ins (tick c i w)"

fun rises :: "bool \<Rightarrow> bool list \<Rightarrow> nat" where
  "rises b [] = 0"
| "rises b (x # xs) = (if \<not> b \<and> x then 1 else 0) + rises x xs"

fun falls :: "bool \<Rightarrow> bool list \<Rightarrow> nat" where
  "falls b [] = 0"
| "falls b (x # xs) = (if b \<and> \<not> x then 1 else 0) + falls x xs"

text \<open>The two shapes of the store in a session: the race is still on, or it is over and
  the lap counter has passed the target.\<close>

definition latched :: "race \<Rightarrow> bool" where
  "latched s = (finished s \<and> totalLaps s < currentLap s)"

definition pending :: "race \<Rightarrow> bool" where
  "pending s = (\<not> finished s \<and> (currentLap s \<le> totalLaps s \<or> currentLap s = 1))"

text \<open>A frame in which all four flags are false.\<close>

definition idle :: "frameIn \<Rightarrow> bool" where
  "idle i = (\<not> left (controlsOf (ctl i)) \<and> \<not> right (controlsOf (ctl i))
             \<and> \<not> up (controlsOf (ctl i)) \<and> \<not> down (controlsOf (ctl i)))"

text \<open>The test of line 478 in a callback started in \<open>w\<close>, and the number of callbacks of a
  run in which it succeeds.\<close>

definition completes :: "car \<Rightarrow> frameIn \<Rightarrow> kart \<times> race \<Rightarrow> bool" where
  "completes c i w =
    (let f = motion c (controlsOf (ctl i)) (clampDt (delta i)) (innerR (snd w)) (outerR (snd w)) (fst w)
     in crossedStart (innerR (snd w)) (outerR (snd w)) (fr f) (lastAngle (fst w)) (fang f)
        \<and> armed (checkpoint (fst w)) (lastAngle (fst w)) (fang f))"

fun completions :: "car \<Rightarrow> frameIn list \<Rightarrow> kart \<times> race \<Rightarrow> int" where
  "completions c [] w = 0"
| "completions c (i # ins) w = (if completes c i w then 1 else 0) + completions c ins (tick c i w)"

subsection \<open>Concrete inputs and states used as instances\<close>

text \<open>A pressed-keys record, a frame of 1/20 s with the throttle or the brake held, and
  four states of a kart (the car is \<open>sprinter\<close>) that heads along the z axis next to the
  point of the ring opposite the start line, at radius 21.\<close>

definition keys :: "bool \<Rightarrow> bool \<Rightarrow> bool \<Rightarrow> bool \<Rightarrow> controls option" where
  "keys l r u d = Some \<lparr>left = l, right = r, up = u, down = d\<rparr>"

definition gasIn :: "real \<Rightarrow> frameIn" where
  "gasIn t = \<lparr>ctl = keys False False True False, elapsedTime = t, delta = 1 / 20\<rparr>"

definition brakeIn :: "real \<Rightarrow> frameIn" where
  "brakeIn t = \<lparr>ctl = keys False False False True, elapsedTime = t, delta = 1 / 20\<rparr>"

definition wiggle0 :: kart where
  "wiggle0 = \<lparr>vel = 133 / 2000, yaw = pi / 2, pos = Some (- 21, - (703 / 40000)),
               lastAngle = Some (atan2 (- (703 / 40000)) (- 21)), checkpoint = False, lastBoostTime = 0\<rparr>"

definition wiggle1 :: kart where
  "wiggle1 = \<lparr>vel = 703 / 2000, yaw = pi / 2, pos = Some (- 21, 0),
               lastAngle = Some pi, checkpoint = False, lastBoostTime = 0\<rparr>"

definition wiggle2 :: kart where
  "wiggle2 = \<lparr>vel = - (57 / 400), yaw = pi / 2, pos = Some (- 21, - (57 / 8000)),
               lastAngle = Some (atan2 (- (57 / 8000)) (- 21)), checkpoint = False, lastBoostTime = 0\<rparr>"

definition wiggle3 :: kart where
  "wiggle3 = \<lparr>vel = 57 / 400, yaw = pi / 2, pos = Some (- 21, 0),
               lastAngle = Some pi, checkpoint = False, lastBoostTime = 0\<rparr>"

text \<open>A kart one frame before the start line, at the centre-line radius 17, with the
  checkpoint armed; the same kart on the line; and stores with chosen lap counters.\<close>

definition atStart0 :: kart where
  "atStart0 = \<lparr>vel = 28, yaw = pi / 2, pos = Some (17, - (7 / 5)),
                lastAngle = Some (atan2 (- (7 / 5)) 17), checkpoint = True, lastBoostTime = 0\<rparr>"

definition atStart1 :: kart where
  "atStart1 = \<lparr>vel = 28, yaw = pi / 2, pos = Some (17, 0),
                lastAngle = Some 0, checkpoint = False, lastBoostTime = 0\<rparr>"

definition store :: "int \<Rightarrow> int \<Rightarrow> bool \<Rightarrow> race" where
  "store n m b = \<lparr>currentLap = n, totalLaps = m, finished = b, innerR = 12, outerR = 22\<rparr>"

text \<open>A kart at full speed one frame before the point opposite the start line, on the
  centre-line radius 17, where the boost window centred at \<open>pi\<close> lies.\<close>

definition padEntry0 :: kart where
  "padEntry0 = \<lparr>vel = 28, yaw = - (pi / 2), pos = Some (- 17, 7 / 5),
                 lastAngle = Some (atan2 (7 / 5) (- 17)), checkpoint = False, lastBoostTime = 0\<rparr>"

text \<open>A frame of 1/20 s with all four flags false, and a frame of 1/32 s with the
  throttle held. A kart at full speed on the outer boundary, heading outwards. A kart at
  full speed inside the ring, heading along the x axis, whose next position is the centre
  itself, and one whose next position is at radius \<open>2^-24\<close>; their coordinates, the
  speed and the frame delta are binary fractions, so that the doubles of the source land
  on the same points.\<close>

definition idleIn :: "real \<Rightarrow> frameIn" where
  "idleIn t = \<lparr>ctl = keys False False False False, elapsedTime = t, delta = 1 / 20\<rparr>"


definition wall0 :: kart where
  "wall0 = \<lparr>vel = 28, yaw = 0, pos = Some (22, 0), lastAngle = Some 0,
             checkpoint = False, lastBoostTime = 0\<rparr>"



text \<open>A kart with the checkpoint armed that drives backwards round the ring (towards
  positive z on the far side) one frame before it passes the point opposite the start
  line.\<close>

definition farSide0 :: kart where
  "farSide0 = \<lparr>vel = 28, yaw = pi / 2, pos = Some (- 17, - (7 / 10)),
                lastAngle = Some (atan2 (- (7 / 10)) (- 17)), checkpoint = True, lastBoostTime = 0\<rparr>"

text \<open>A kart at full speed one frame before it passes the point opposite the start line
  (angle just below \<open>pi\<close>, heading towards negative z). A kart at rest or rolling along
  the x axis with no key pressed, and \<open>n\<close> idle frames of 1/20 s after clock time \<open>t\<close>.
  Two selections that differ in the character and in the track.\<close>

definition halfway0 :: kart where
  "halfway0 = \<lparr>vel = 28, yaw = - (pi / 2), pos = Some (- 17, 7 / 10),
                lastAngle = Some (atan2 (7 / 10) (- 17)), checkpoint = False, lastBoostTime = 0\<rparr>"

definition coasting :: "real \<Rightarrow> real \<Rightarrow> kart" where
  "coasting v x = \<lparr>vel = v, yaw = 0, pos = Some (x, 0), lastAngle = Some 0,
                   checkpoint = False, lastBoostTime = 0\<rparr>"

fun idleRun :: "nat \<Rightarrow> real \<Rightarrow> frameIn list" where
  "idleRun 0 t = []"
| "idleRun (Suc n) t = idleIn (t + 1 / 20) # idleRun n (t + 1 / 20)"



text \<open>A kart on the negative x half-axis at radius 21 (outside the radial range of the
  pad, inside the one of the lap test) that is braked back for one frame and driven forward
  for the next, with frame deltas that bring it back to the same state; the state between
  the two frames; and \<open>n\<close> such pairs of frames after clock time \<open>t\<close>.\<close>

definition farm0 :: kart where
  "farm0 = \<lparr>vel = 2223 / 25000, yaw = pi / 2, pos = Some (- 21, 0),
             lastAngle = Some pi, checkpoint = False, lastBoostTime = 0\<rparr>"

definition farm1 :: kart where
  "farm1 = \<lparr>vel = - (9633 / 62500), yaw = pi / 2, pos = Some (- 21, - (1184859 / 312500000)),
             lastAngle = Some (atan2 (- (1184859 / 312500000)) (- 21)), checkpoint = False,
             lastBoostTime = 0\<rparr>"

definition farmBrake :: "real \<Rightarrow> frameIn" where
  "farmBrake t = \<lparr>ctl = keys False False False True, elapsedTime = t, delta = 123 / 5000\<rparr>"

definition farmGas :: "real \<Rightarrow> frameIn" where
  "farmGas t = \<lparr>ctl = keys False False True False, elapsedTime = t, delta = 533 / 12500\<rparr>"

fun farm :: "nat \<Rightarrow> real \<Rightarrow> frameIn list" where
  "farm 0 t = []"
| "farm (Suc n) t = farmBrake (t + 123 / 5000) # farmGas (t + 1681 / 25000) # farm n (t + 1681 / 25000)"

section \<open>Properties\<close>

subsection \<open>Facts about the numeric helpers\<close>

lemma hypot_axis [simp]: "hypot x 0 = \<bar>x\<bar>"
  by (simp add: hypot_def)

lemma hypot_nonneg [simp]: "0 \<le> hypot x z"
  by (simp add: hypot_def)

lemma hypot_ge: "b * b \<le> x * x + z * z \<Longrightarrow> b \<le> hypot x z"
  unfolding hypot_def by (rule real_le_rsqrt) (simp add: power2_eq_square)

lemma hypot_le: "0 \<le> b \<Longrightarrow> x * x + z * z \<le> b * b \<Longrightarrow> hypot x z \<le> b"
  unfolding hypot_def by (rule real_le_lsqrt) (simp_all add: power2_eq_square)

lemma hypot_scale: "hypot (x * k) (z * k) = \<bar>k\<bar> * hypot x z"
proof -
  have "(x * k) * (x * k) + (z * k) * (z * k) = k\<^sup>2 * (x * x + z * z)"
    by (simp add: power2_eq_square algebra_simps)
  then show ?thesis
    by (simp add: hypot_def real_sqrt_mult)
qed

lemma hypot_rescaled:
  assumes "0 < hypot x z" "0 \<le> b"
  shows "hypot (x * (b / hypot x z)) (z * (b / hypot x z)) = b"
proof -
  have "hypot (x * (b / hypot x z)) (z * (b / hypot x z)) = \<bar>b / hypot x z\<bar> * hypot x z"
    by (rule hypot_scale)
  also have "\<dots> = b" using assms by simp
  finally show ?thesis .
qed

lemma hypot_rescaled_flat:
  assumes "0 < hypot x z" "0 \<le> b"
  shows "hypot (x * b / hypot x z) (z * b / hypot x z) = b"
  using hypot_rescaled [OF assms] by simp

lemma atan2_axis [simp]: "atan2 0 x = (if x < 0 then pi else 0)"
  by (simp add: atan2_def)

lemma atan2_second: "x < 0 \<Longrightarrow> 0 < z \<Longrightarrow> pi / 2 < atan2 z x \<and> atan2 z x < pi"
proof -
  assume h: "x < 0" "0 < z"
  then have "z / x < 0" by (simp add: divide_pos_neg)
  then have "arctan (z / x) < 0" by (simp add: arctan_less_zero_iff)
  moreover have "- (pi / 2) < arctan (z / x)" by (rule arctan_lbound)
  ultimately show ?thesis using h by (simp add: atan2_def)
qed

lemma atan2_third: "x < 0 \<Longrightarrow> z < 0 \<Longrightarrow> - pi < atan2 z x \<and> atan2 z x < - (pi / 2)"
proof -
  assume h: "x < 0" "z < 0"
  then have "0 < z / x" by (simp add: divide_neg_neg)
  then have "0 < arctan (z / x)" by (simp add: zero_less_arctan_iff)
  moreover have "arctan (z / x) < pi / 2" by (rule arctan_ubound)
  ultimately show ?thesis using h by (simp add: atan2_def)
qed

lemma atan2_fourth: "0 < x \<Longrightarrow> z < 0 \<Longrightarrow> - (pi / 2) < atan2 z x \<and> atan2 z x < 0"
proof -
  assume h: "0 < x" "z < 0"
  then have "z / x < 0" by (simp add: divide_neg_pos)
  then have "arctan (z / x) < 0" by (simp add: arctan_less_zero_iff)
  moreover have "- (pi / 2) < arctan (z / x)" by (rule arctan_lbound)
  ultimately show ?thesis using h by (simp add: atan2_def)
qed

lemma atan2_eq_pi_iff: "atan2 z x = pi \<longleftrightarrow> z = 0 \<and> x < 0"
proof -
  have b: "- (pi / 2) < arctan (z / x)" "arctan (z / x) < pi / 2"
    by (rule arctan_lbound, rule arctan_ubound)
  show ?thesis
  proof (cases "x < 0")
    case True
    then show ?thesis using b pi_gt_zero by (auto simp: atan2_def simp del: pi_gt_zero)
  next
    case False
    then show ?thesis using b pi_gt_zero by (auto simp: atan2_def simp del: pi_gt_zero)
  qed
qed

lemma atan2_range: "- pi < atan2 z x \<and> atan2 z x \<le> pi"
proof -
  have b: "- (pi / 2) < arctan (z / x)" "arctan (z / x) < pi / 2"
    by (rule arctan_lbound, rule arctan_ubound)
  have p: "0 < z \<Longrightarrow> x < 0 \<Longrightarrow> arctan (z / x) < 0" "z < 0 \<Longrightarrow> x < 0 \<Longrightarrow> 0 < arctan (z / x)"
    by (simp_all add: arctan_less_zero_iff zero_less_arctan_iff divide_pos_neg divide_neg_neg)
  show ?thesis
    using b p pi_gt_zero by (auto simp: atan2_def simp del: pi_gt_zero)
qed

lemma jsrem_small: "\<bar>a\<bar> < b \<Longrightarrow> jsrem a b = a"
proof -
  assume h: "\<bar>a\<bar> < b"
  then have b: "0 < b" by linarith
  have "-1 < a / b" "a / b < 1" using h b by (simp_all add: field_simps abs_less_iff)
  then have "trunc (a / b) = 0"
    unfolding trunc_def by (auto simp: ceiling_eq_iff floor_eq_iff)
  then show ?thesis by (simp add: jsrem_def)
qed

lemma normalizeAngle_small:
  "\<bar>a\<bar> < 2 * pi \<Longrightarrow>
   normalizeAngle a = (if a < - pi then a + 2 * pi else if a > pi then a - 2 * pi else a)"
  using pi_gt_zero by (auto simp: normalizeAngle_def jsrem_small Let_def simp del: pi_gt_zero)

lemma na_0: "normalizeAngle 0 = 0"
  using pi_gt_zero by (subst normalizeAngle_small) (auto simp del: pi_gt_zero)

lemma na_3q: "normalizeAngle (pi - pi / 4) = 3 * pi / 4"
  using pi_gt_zero by (subst normalizeAngle_small) (auto simp del: pi_gt_zero)

lemma na_mh: "normalizeAngle (pi - 3 * pi / 2) = - (pi / 2)"
  using pi_gt_zero by (subst normalizeAngle_small) (auto simp del: pi_gt_zero)

lemma na_q: "normalizeAngle (- (pi / 4)) = - (pi / 4)"
  using pi_gt_zero by (subst normalizeAngle_small) (auto simp del: pi_gt_zero)

lemma na_p: "normalizeAngle (- pi) = - pi"
  using pi_gt_zero by (subst normalizeAngle_small) (auto simp del: pi_gt_zero)

lemma na_t: "normalizeAngle (- (3 * pi / 2)) = pi / 2"
  using pi_gt_zero by (subst normalizeAngle_small) (auto simp del: pi_gt_zero)

lemma clamp_range: "mn \<le> mx \<Longrightarrow> mn \<le> clamp v mn mx \<and> clamp v mn mx \<le> mx"
  by (simp add: clamp_def)

subsection \<open>Facts about the phases of the callback\<close>

lemma lapUpdate_simps [simp]:
  "currentLap (lapUpdate s) = currentLap s + 1"
  "totalLaps (lapUpdate s) = totalLaps s"
  "finished (lapUpdate s) = (totalLaps s < currentLap s + 1)"
  "innerR (lapUpdate s) = innerR s"
  "outerR (lapUpdate s) = outerR s"
  by (simp_all add: lapUpdate_def Let_def)

lemma store_simps [simp]:
  "currentLap (store n m b) = n" "totalLaps (store n m b) = m" "finished (store n m b) = b"
  "innerR (store n m b) = 12" "outerR (store n m b) = 22"
  "lapUpdate (store n m b) = store (n + 1) m (m < n + 1)"
  by (simp_all add: store_def lapUpdate_def Let_def)

lemma longitudinal_range:
  assumes "0 \<le> maxSpeed c"
  shows "- maxSpeed c * (3 / 10) \<le> longitudinal c ct d v \<and> longitudinal c ct d v \<le> maxSpeed c"
proof -
  have "- maxSpeed c * (3 / 10) \<le> maxSpeed c" using assms by simp
  from clamp_range [OF this] show ?thesis
    by (simp add: longitudinal_def Let_def)
qed

text \<open>Whatever the car and the frame delta: with the throttle and the brake released, the
  longitudinal phase turns speed 0 into a negative speed.\<close>

lemma coast_from_rest_negative:
  assumes "0 < accel c" and "0 < maxSpeed c" and "0 < d" and "\<not> up ct" and "\<not> down ct"
  shows "longitudinal c ct d 0 < 0"
proof -
  have a: "0 < accel c * (6 / 10) * (4 / 10) * d" using assms(1,3) by simp
  have m: "- maxSpeed c * (3 / 10) < 0" using assms(2) by simp
  have n: "lo < 0 \<Longrightarrow> x < 0 \<Longrightarrow> clamp x lo hi < 0" for x lo hi :: real
    by (simp add: clamp_def min_def max_def)
  have "clamp (0 - accel c * (6 / 10) * (4 / 10) * d) (- maxSpeed c * (3 / 10)) (maxSpeed c) < 0"
    using a m by (intro n) simp_all
  then show ?thesis using assms(4,5) by (simp add: longitudinal_def Let_def)
qed

lemma motion_inside:
  assumes "pos k = Some (x, z)"
    and "v1 = longitudinal c ct d (vel k)"
    and "y1 = steering c ct d v1 (yaw k)"
    and "x1 = x + cos y1 * v1 * d" and "z1 = z + sin y1 * v1 * d"
    and "iR \<le> hypot x1 z1" and "hypot x1 z1 \<le> oR"
  shows "motion c ct d iR oR k =
    \<lparr>fyaw = y1, fpos = Some (x1, z1), fvel = v1, fr = Some (hypot x1 z1), fang = Some (atan2 z1 x1)\<rparr>"
  using assms
  by (simp add: motion_def integrate_def radius_def boundary_def angleOf_def lt_def gt_def Let_def)

lemma motion_Some:
  assumes "pos k = Some (x, z)"
  shows "motion c ct d iR oR k =
    (let v1 = longitudinal c ct d (vel k);
         y1 = steering c ct d v1 (yaw k);
         x1 = x + cos y1 * v1 * d;
         z1 = z + sin y1 * v1 * d;
         pv = boundary iR oR (Some (hypot x1 z1)) (Some (x1, z1), v1)
     in \<lparr>fyaw = y1, fpos = fst pv, fvel = snd pv, fr = Some (hypot x1 z1), fang = angleOf (fst pv)\<rparr>)"
  using assms by (simp add: motion_def integrate_def radius_def Let_def)

lemma motion_fvel:
  "fvel (motion c ct d iR oR k) =
     snd (boundary iR oR (radius (integrate (steering c ct d (longitudinal c ct d (vel k)) (yaw k))
            (longitudinal c ct d (vel k)) d (pos k)))
       (integrate (steering c ct d (longitudinal c ct d (vel k)) (yaw k)) (longitudinal c ct d (vel k)) d (pos k),
        longitudinal c ct d (vel k)))"
  by (simp add: motion_def Let_def)

lemma motion_fang: "fang (motion c ct d iR oR k) = angleOf (fpos (motion c ct d iR oR k))"
  by (simp add: motion_def Let_def)

lemma motion_fr_Some:
  assumes "fr (motion c ct d iR oR k) = Some r"
  shows "\<exists>x z. pos k = Some (x, z)"
  using assms by (cases "pos k") (auto simp: motion_def integrate_def radius_def Let_def)

lemma boundary_Some:
  "boundary iR oR (Some r) (Some (x, z), v) =
    (if r < iR then
       (if r > oR then ((if r = 0 then None else Some (x * (iR / r) * (oR / r), z * (iR / r) * (oR / r))),
                        v * (6 / 10) * (6 / 10))
        else ((if r = 0 then None else Some (x * (iR / r), z * (iR / r))), v * (6 / 10)))
     else if r > oR then ((if r = 0 then None else Some (x * (oR / r), z * (oR / r))), v * (6 / 10))
     else (Some (x, z), v))"
  by (simp add: boundary_def scalePos_def lt_def gt_def Let_def)

lemma boundary_vel_cases:
  "snd (boundary iR oR r (p, v)) = v \<or> snd (boundary iR oR r (p, v)) = v * (6 / 10)
   \<or> snd (boundary iR oR r (p, v)) = v * (6 / 10) * (6 / 10)"
  by (simp add: boundary_def Let_def)

lemma boundary_vel_range:
  assumes "0 \<le> mx" "- mx * (3 / 10) \<le> v" "v \<le> mx"
  shows "- mx * (3 / 10) \<le> snd (boundary iR oR r (p, v)) \<and> snd (boundary iR oR r (p, v)) \<le> mx"
  using boundary_vel_cases [of iR oR r p v] assms by auto

lemma boundary_in_ring:
  assumes "0 \<le> iR" "iR \<le> oR" "0 < hypot x z"
  shows "\<exists>x' z'. fst (boundary iR oR (Some (hypot x z)) (Some (x, z), v)) = Some (x', z')
           \<and> iR \<le> hypot x' z' \<and> hypot x' z' \<le> oR"
proof -
  consider "hypot x z < iR" | "oR < hypot x z" | "iR \<le> hypot x z" "hypot x z \<le> oR"
    by linarith
  then show ?thesis
  proof cases
    case 1
    then have "\<not> oR < hypot x z" using assms by simp
    with 1 assms show ?thesis by (simp add: boundary_Some hypot_rescaled_flat)
  next
    case 2
    then have "\<not> hypot x z < iR" using assms by simp
    with 2 assms show ?thesis by (simp add: boundary_Some hypot_rescaled_flat)
  next
    case 3
    then show ?thesis by (simp add: boundary_Some)
  qed
qed

text \<open>For a ring with \<open>0 < innerR \<le> outerR\<close>, the radial test of the start-line crossing
  (line 475), which reads the radius of line 450, gives the same answer on the radius of the
  position the boundary phase leaves.\<close>

lemma start_test_on_final_radius:
  assumes "0 < iR" "iR \<le> oR"
  shows "lt (map_option (\<lambda>rv. \<bar>rv - (iR + oR) / 2\<bar>) (Some (hypot x z))) ((oR - iR) / 2)
       = lt (map_option (\<lambda>rv. \<bar>rv - (iR + oR) / 2\<bar>)
              (radius (fst (boundary iR oR (Some (hypot x z)) (Some (x, z), v))))) ((oR - iR) / 2)"
proof -
  define h where "h = hypot x z"
  have h0: "0 \<le> h" by (simp add: h_def)
  have e: "\<bar>iR - (iR + oR) / 2\<bar> = (oR - iR) / 2" "\<bar>oR - (iR + oR) / 2\<bar> = (oR - iR) / 2"
    using assms by (simp_all add: abs_if field_simps)
  have lo: "h < iR \<Longrightarrow> \<not> \<bar>h - (iR + oR) / 2\<bar> < (oR - iR) / 2"
    using assms by (simp add: abs_if field_simps)
  have hi: "oR < h \<Longrightarrow> \<not> \<bar>h - (iR + oR) / 2\<bar> < (oR - iR) / 2"
    using assms by (simp add: abs_if field_simps)
  consider "h = 0" | "0 < h" "h < iR" | "oR < h" | "iR \<le> h" "h \<le> oR"
    using h0 by linarith
  then show ?thesis
  proof cases
    case 1
    then have "h < iR" using assms by simp
    from lo [OF this] 1 assms show ?thesis
      by (simp add: boundary_Some radius_def lt_def h_def [symmetric])
  next
    case 2
    then have n: "\<not> oR < h" using assms by simp
    have "hypot (x * iR / h) (z * iR / h) = iR"
      using 2 assms by (simp add: hypot_rescaled_flat h_def)
    then show ?thesis using 2 n lo e
      by (simp add: boundary_Some radius_def lt_def h_def [symmetric])
  next
    case 3
    then have n: "\<not> h < iR" "0 < h" using assms by simp_all
    have "hypot (x * oR / h) (z * oR / h) = oR"
      using n assms by (simp add: hypot_rescaled_flat h_def)
    then show ?thesis using 3 n hi e
      by (simp add: boundary_Some radius_def lt_def h_def [symmetric])
  next
    case 4
    then show ?thesis by (simp add: boundary_Some radius_def lt_def h_def [symmetric])
  qed
qed


lemma noPad_far:
  "(oR - iR) / 3 \<le> \<bar>rv - (iR + oR) / 2\<bar> \<Longrightarrow> \<not> onPad iR oR (Some rv) ang a"
  by (cases ang) (simp_all add: onPad_def lt_def Let_def)

lemma noPad_zero:
  "\<not> onPad iR oR r (Some 0) (pi / 4)" "\<not> onPad iR oR r (Some 0) pi"
  "\<not> onPad iR oR r (Some 0) ((3 * pi) / 2)"
  using pi_gt_zero
  by (simp_all add: onPad_def lt_def na_q na_p na_t Let_def del: pi_gt_zero)

lemma pads_at_pi:
  "\<not> onPad 12 22 (Some 17) (Some pi) (pi / 4)" "onPad 12 22 (Some 17) (Some pi) pi"
  "\<not> onPad 12 22 (Some 17) (Some pi) ((3 * pi) / 2)"
  using pi_gt_zero na_3q na_mh
  by (simp_all add: onPad_def lt_def na_0 Let_def del: pi_gt_zero)

lemma boostPads_unfold:
  "boostPads mx t iR oR r ang vl =
     boostStep mx t iR oR r ang (boostStep mx t iR oR r ang (boostStep mx t iR oR r ang vl (pi / 4)) pi) ((3 * pi) / 2)"
  by (simp add: boostPads_def pads_def)

lemma boostPads_none:
  "\<not> onPad iR oR r ang (pi / 4) \<Longrightarrow> \<not> onPad iR oR r ang pi \<Longrightarrow> \<not> onPad iR oR r ang ((3 * pi) / 2)
   \<Longrightarrow> boostPads mx t iR oR r ang vl = vl"
  by (simp add: boostPads_unfold boostStep_def)

lemma boostPads_cooling:
  "t - snd vl \<le> 1 \<Longrightarrow> boostPads mx t iR oR r ang vl = vl"
  by (simp add: boostPads_unfold boostStep_def)


lemma boostStep_range:
  assumes "0 \<le> mx" "- mx * (3 / 10) \<le> fst vl" "fst vl \<le> mx * (12 / 10)"
  shows "- mx * (3 / 10) \<le> fst (boostStep mx t iR oR r ang vl a)
       \<and> fst (boostStep mx t iR oR r ang vl a) \<le> mx * (12 / 10)"
  using assms by (auto simp: boostStep_def min_def)

lemma boostPads_range:
  assumes "0 \<le> mx" "- mx * (3 / 10) \<le> fst vl" "fst vl \<le> mx * (12 / 10)"
  shows "- mx * (3 / 10) \<le> fst (boostPads mx t iR oR r ang vl)
       \<and> fst (boostPads mx t iR oR r ang vl) \<le> mx * (12 / 10)"
  unfolding boostPads_unfold
  by (intro boostStep_range assms conjunct1 [OF boostStep_range] conjunct2 [OF boostStep_range])



text \<open>The half-lap test of line 476 holds only when the new position lies exactly on the
  negative x half-axis.\<close>

lemma crossedHalf_iff:
  "crossedHalf angPrev (angleOf p) =
    (\<exists>v x. angPrev = Some v \<and> v < pi \<and> p = Some (x, 0) \<and> x < 0)"
proof (cases p)
  case None
  then show ?thesis by (simp add: crossedHalf_def angleOf_def ge_def le_def)
next
  case (Some q)
  obtain x z where q: "q = (x, z)" by (cases q)
  have r: "- pi < atan2 z x \<and> atan2 z x \<le> pi" by (rule atan2_range)
  have e: "(pi \<le> atan2 z x) = (z = 0 \<and> x < 0)"
    using r atan2_eq_pi_iff [of z x] by auto
  show ?thesis
    using r by (cases angPrev) (auto simp: Some q crossedHalf_def angleOf_def ge_def le_def lt_def gt_def e)
qed

subsection \<open>Facts about the callback and about runs\<close>

lemma tick_snd:
  "snd (tick c i w) =
    (let f = motion c (controlsOf (ctl i)) (clampDt (delta i)) (innerR (snd w)) (outerR (snd w)) (fst w)
     in if crossedStart (innerR (snd w)) (outerR (snd w)) (fr f) (lastAngle (fst w)) (fang f)
           \<and> armed (checkpoint (fst w)) (lastAngle (fst w)) (fang f)
        then lapUpdate (snd w) else snd w)"
  by (simp add: tick_def lapDetect_def Let_def)

lemma tick_checkpoint:
  "checkpoint (fst (tick c i w)) =
    (let f = motion c (controlsOf (ctl i)) (clampDt (delta i)) (innerR (snd w)) (outerR (snd w)) (fst w)
     in if crossedStart (innerR (snd w)) (outerR (snd w)) (fr f) (lastAngle (fst w)) (fang f)
           \<and> armed (checkpoint (fst w)) (lastAngle (fst w)) (fang f)
        then False else armed (checkpoint (fst w)) (lastAngle (fst w)) (fang f))"
  by (simp add: tick_def lapDetect_def Let_def)

lemma tick_totalLaps [simp]: "totalLaps (snd (tick c i w)) = totalLaps (snd w)"
  by (simp add: tick_snd Let_def)

lemma tick_innerR [simp]: "innerR (snd (tick c i w)) = innerR (snd w)"
  by (simp add: tick_snd Let_def)

lemma tick_outerR [simp]: "outerR (snd (tick c i w)) = outerR (snd w)"
  by (simp add: tick_snd Let_def)

lemma tick_lap_cases:
  "(currentLap (snd (tick c i w)) = currentLap (snd w) \<and> finished (snd (tick c i w)) = finished (snd w))
   \<or> (currentLap (snd (tick c i w)) = currentLap (snd w) + 1
       \<and> finished (snd (tick c i w)) = (totalLaps (snd w) < currentLap (snd w) + 1))"
  by (simp add: tick_snd Let_def)

lemma tick_completes:
  "snd (tick c i w) = (if completes c i w then lapUpdate (snd w) else snd w)"
  by (simp add: tick_snd completes_def Let_def)

lemma tick_vel:
  "vel (fst (tick c i (k, s))) =
    fst (boostPads (maxSpeed c) (elapsedTime i) (innerR s) (outerR s)
      (fr (motion c (controlsOf (ctl i)) (clampDt (delta i)) (innerR s) (outerR s) k))
      (fang (motion c (controlsOf (ctl i)) (clampDt (delta i)) (innerR s) (outerR s) k))
      (fvel (motion c (controlsOf (ctl i)) (clampDt (delta i)) (innerR s) (outerR s) k), lastBoostTime k))"
  by (simp add: tick_def Let_def)


lemma tick_pos: "pos (fst (tick c i (k, s))) =
    fpos (motion c (controlsOf (ctl i)) (clampDt (delta i)) (innerR s) (outerR s) k)"
  by (simp add: tick_def Let_def)

lemma tick_frame:
  assumes "motion c (controlsOf (ctl i)) (clampDt (delta i)) (innerR s) (outerR s) k
            = \<lparr>fyaw = y, fpos = p, fvel = v, fr = r, fang = a\<rparr>"
    and "boostPads (maxSpeed c) (elapsedTime i) (innerR s) (outerR s) r a (v, lastBoostTime k) = vl"
    and "lapDetect (innerR s) (outerR s) r (lastAngle k) a (checkpoint k, s) = cs"
  shows "tick c i (k, s) =
    (\<lparr>vel = fst vl, yaw = y, pos = p, lastAngle = a, checkpoint = fst cs,
      lastBoostTime = snd vl\<rparr>, snd cs)"
  using assms by (simp add: tick_def Let_def)


text \<open>A callback sets the checkpoint flag only when it leaves the kart exactly on the
  negative x half-axis.\<close>

lemma checkpoint_set_only_on_axis:
  assumes "checkpoint (fst (tick c i (k, s)))"
  shows "checkpoint k \<or> (\<exists>x. pos (fst (tick c i (k, s))) = Some (x, 0) \<and> x < 0)"
proof -
  define f where "f = motion c (controlsOf (ctl i)) (clampDt (delta i)) (innerR s) (outerR s) k"
  have "armed (checkpoint k) (lastAngle k) (fang f)"
    using assms by (simp add: tick_checkpoint f_def Let_def split: if_splits)
  then have "checkpoint k \<or> crossedHalf (lastAngle k) (angleOf (fpos f))"
    by (simp add: armed_def f_def motion_fang split: if_splits)
  then show ?thesis
    by (auto simp: crossedHalf_iff tick_pos f_def)
qed

lemma run_totalLaps [simp]: "totalLaps (snd (run c ins w)) = totalLaps (snd w)"
  by (induction ins arbitrary: w) simp_all

lemma run_innerR [simp]: "innerR (snd (run c ins w)) = innerR (snd w)"
  by (induction ins arbitrary: w) simp_all

lemma run_outerR [simp]: "outerR (snd (run c ins w)) = outerR (snd w)"
  by (induction ins arbitrary: w) simp_all

lemma run_append: "run c (xs @ ys) w = run c ys (run c xs w)"
  by (induction xs arbitrary: w) simp_all

lemma run_completions:
  "currentLap (snd (run c ins w)) = currentLap (snd w) + completions c ins w"
  by (induction ins arbitrary: w) (simp_all add: tick_completes)

lemma tick_yaw: "yaw (fst (tick c i (k, s))) =
    steering c (controlsOf (ctl i)) (clampDt (delta i))
      (longitudinal c (controlsOf (ctl i)) (clampDt (delta i)) (vel k)) (yaw k)"
  by (simp add: tick_def motion_def Let_def)

lemma idle_tick_yaw: "idle i \<Longrightarrow> yaw (fst (tick c i w)) = yaw (fst w)"
  by (cases w) (simp add: tick_yaw idle_def steering_def Let_def)

lemma idle_run_yaw: "list_all idle ins \<Longrightarrow> yaw (fst (run c ins w)) = yaw (fst w)"
  by (induction ins arbitrary: w) (simp_all add: idle_tick_yaw)

subsection \<open>The callback at the concrete states\<close>

lemma wiggle_tick1:
  assumes "innerR s = 12" "outerR s = 22"
  shows "tick sprinter (gasIn t) (wiggle0, s) = (wiggle1, lapUpdate s)"
proof -
  have m: "motion sprinter (controlsOf (ctl (gasIn t))) (clampDt (delta (gasIn t))) (innerR s) (outerR s) wiggle0
      = \<lparr>fyaw = pi / 2, fpos = Some (- 21, 0), fvel = 703 / 2000, fr = Some 21, fang = Some pi\<rparr>"
    by (subst motion_inside [where x = "- 21" and z = "- (703 / 40000)" and ?v1.0 = "703 / 2000"
          and ?y1.0 = "pi / 2" and ?x1.0 = "- 21" and ?z1.0 = 0])
       (simp_all add: wiggle0_def gasIn_def keys_def controlsOf_def clampDt_def longitudinal_def
          steering_def sprinter_def clamp_def assms Let_def)
  have b: "boostPads (maxSpeed sprinter) (elapsedTime (gasIn t)) (innerR s) (outerR s) (Some 21) (Some pi)
             (703 / 2000, lastBoostTime wiggle0) = (703 / 2000, 0)"
    by (rule trans [OF boostPads_none]) (simp_all add: noPad_far assms wiggle0_def)
  have a: "- pi < atan2 (- (703 / 40000)) (- 21) \<and> atan2 (- (703 / 40000)) (- 21) < - (pi / 2)"
    by (rule atan2_third) simp_all
  have l: "lapDetect (innerR s) (outerR s) (Some 21) (lastAngle wiggle0) (Some pi) (checkpoint wiggle0, s)
      = (False, lapUpdate s)"
    using a pi_gt_zero
    by (simp add: lapDetect_def armed_def crossedHalf_def crossedStart_def lt_def ge_def gt_def le_def
        wiggle0_def assms Let_def del: pi_gt_zero)
  show ?thesis
    using tick_frame [OF m b l] by (simp add: wiggle1_def)
qed

lemma wiggle_tick2:
  assumes "innerR s = 12" "outerR s = 22"
  shows "tick sprinter (brakeIn t) (wiggle1, s) = (wiggle2, s)"
proof -
  have h1: "21 \<le> hypot (- 21) (- (57 / 8000))" by (rule hypot_ge) simp
  have h2: "hypot (- 21) (- (57 / 8000)) \<le> 22" by (rule hypot_le) simp_all
  have m: "motion sprinter (controlsOf (ctl (brakeIn t))) (clampDt (delta (brakeIn t))) (innerR s) (outerR s) wiggle1
      = \<lparr>fyaw = pi / 2, fpos = Some (- 21, - (57 / 8000)), fvel = - (57 / 400),
         fr = Some (hypot (- 21) (- (57 / 8000))), fang = Some (atan2 (- (57 / 8000)) (- 21))\<rparr>"
    using h1 h2
    by (subst motion_inside [where x = "- 21" and z = 0 and ?v1.0 = "- (57 / 400)"
          and ?y1.0 = "pi / 2" and ?x1.0 = "- 21" and ?z1.0 = "- (57 / 8000)"])
       (simp_all add: wiggle1_def brakeIn_def keys_def controlsOf_def clampDt_def longitudinal_def
          steering_def sprinter_def clamp_def assms Let_def)
  have b: "boostPads (maxSpeed sprinter) (elapsedTime (brakeIn t)) (innerR s) (outerR s)
             (Some (hypot (- 21) (- (57 / 8000)))) (Some (atan2 (- (57 / 8000)) (- 21)))
             (- (57 / 400), lastBoostTime wiggle1) = (- (57 / 400), 0)"
    using h1 by (intro trans [OF boostPads_none] noPad_far) (simp_all add: assms wiggle1_def)
  have a: "- pi < atan2 (- (57 / 8000)) (- 21) \<and> atan2 (- (57 / 8000)) (- 21) < - (pi / 2)"
    by (rule atan2_third) simp_all
  have l: "lapDetect (innerR s) (outerR s) (Some (hypot (- 21) (- (57 / 8000)))) (lastAngle wiggle1)
             (Some (atan2 (- (57 / 8000)) (- 21))) (checkpoint wiggle1, s) = (False, s)"
    using a pi_gt_zero
    by (simp add: lapDetect_def armed_def crossedHalf_def crossedStart_def lt_def ge_def gt_def le_def
        wiggle1_def assms Let_def del: pi_gt_zero)
  show ?thesis
    using tick_frame [OF m b l] by (simp add: wiggle2_def)
qed

lemma wiggle_tick3:
  assumes "innerR s = 12" "outerR s = 22"
  shows "tick sprinter (gasIn t) (wiggle2, s) = (wiggle3, lapUpdate s)"
proof -
  have m: "motion sprinter (controlsOf (ctl (gasIn t))) (clampDt (delta (gasIn t))) (innerR s) (outerR s) wiggle2
      = \<lparr>fyaw = pi / 2, fpos = Some (- 21, 0), fvel = 57 / 400, fr = Some 21, fang = Some pi\<rparr>"
    by (subst motion_inside [where x = "- 21" and z = "- (57 / 8000)" and ?v1.0 = "57 / 400"
          and ?y1.0 = "pi / 2" and ?x1.0 = "- 21" and ?z1.0 = 0])
       (simp_all add: wiggle2_def gasIn_def keys_def controlsOf_def clampDt_def longitudinal_def
          steering_def sprinter_def clamp_def assms Let_def)
  have b: "boostPads (maxSpeed sprinter) (elapsedTime (gasIn t)) (innerR s) (outerR s) (Some 21) (Some pi)
             (57 / 400, lastBoostTime wiggle2) = (57 / 400, 0)"
    by (rule trans [OF boostPads_none]) (simp_all add: noPad_far assms wiggle2_def)
  have a: "- pi < atan2 (- (57 / 8000)) (- 21) \<and> atan2 (- (57 / 8000)) (- 21) < - (pi / 2)"
    by (rule atan2_third) simp_all
  have l: "lapDetect (innerR s) (outerR s) (Some 21) (lastAngle wiggle2) (Some pi) (checkpoint wiggle2, s)
      = (False, lapUpdate s)"
    using a pi_gt_zero
    by (simp add: lapDetect_def armed_def crossedHalf_def crossedStart_def lt_def ge_def gt_def le_def
        wiggle2_def assms Let_def del: pi_gt_zero)
  show ?thesis
    using tick_frame [OF m b l] by (simp add: wiggle3_def)
qed

lemma atStart_tick:
  assumes "innerR s = 12" "outerR s = 22"
  shows "tick sprinter (gasIn t) (atStart0, s) = (atStart1, lapUpdate s)"
proof -
  have m: "motion sprinter (controlsOf (ctl (gasIn t))) (clampDt (delta (gasIn t))) (innerR s) (outerR s) atStart0
      = \<lparr>fyaw = pi / 2, fpos = Some (17, 0), fvel = 28, fr = Some 17, fang = Some 0\<rparr>"
    by (subst motion_inside [where x = 17 and z = "- (7 / 5)" and ?v1.0 = 28
          and ?y1.0 = "pi / 2" and ?x1.0 = 17 and ?z1.0 = 0])
       (simp_all add: atStart0_def gasIn_def keys_def controlsOf_def clampDt_def longitudinal_def
          steering_def sprinter_def clamp_def assms Let_def)
  have b: "boostPads (maxSpeed sprinter) (elapsedTime (gasIn t)) (innerR s) (outerR s) (Some 17) (Some 0)
             (28, lastBoostTime atStart0) = (28, 0)"
    by (rule trans [OF boostPads_none]) (simp_all add: noPad_zero atStart0_def)
  have a: "- (pi / 2) < atan2 (- (7 / 5)) 17 \<and> atan2 (- (7 / 5)) 17 < 0"
    by (rule atan2_fourth) simp_all
  have l: "lapDetect (innerR s) (outerR s) (Some 17) (lastAngle atStart0) (Some 0) (checkpoint atStart0, s)
      = (False, lapUpdate s)"
    using a pi_gt_zero
    by (simp add: lapDetect_def armed_def crossedHalf_def crossedStart_def lt_def ge_def gt_def le_def
        atStart0_def assms Let_def del: pi_gt_zero)
  show ?thesis
    using tick_frame [OF m b l] by (simp add: atStart1_def)
qed

lemma padEntry_motion:
  "motion sprinter (controlsOf (ctl (gasIn t))) (clampDt (delta (gasIn t))) 12 22 padEntry0
      = \<lparr>fyaw = - (pi / 2), fpos = Some (- 17, 0), fvel = 28, fr = Some 17, fang = Some pi\<rparr>"
  by (subst motion_inside [where x = "- 17" and z = "7 / 5" and ?v1.0 = 28
        and ?y1.0 = "- (pi / 2)" and ?x1.0 = "- 17" and ?z1.0 = 0])
     (simp_all add: padEntry0_def gasIn_def keys_def controlsOf_def clampDt_def longitudinal_def
        steering_def sprinter_def clamp_def Let_def)

lemma padEntry_lap:
  "lapDetect 12 22 (Some 17) (lastAngle padEntry0) (Some pi) (checkpoint padEntry0, s) = (True, s)"
proof -
  have a: "pi / 2 < atan2 (7 / 5) (- 17) \<and> atan2 (7 / 5) (- 17) < pi"
    by (rule atan2_second) simp_all
  show ?thesis
    using a pi_gt_zero
    by (simp add: lapDetect_def armed_def crossedHalf_def crossedStart_def lt_def ge_def gt_def le_def
        padEntry0_def Let_def del: pi_gt_zero)
qed

lemma padEntry_tick_boost:
  assumes "innerR s = 12" "outerR s = 22" "1 < t"
  shows "tick sprinter (gasIn t) (padEntry0, s)
     = (\<lparr>vel = 168 / 5, yaw = - (pi / 2), pos = Some (- 17, 0), lastAngle = Some pi,
         checkpoint = True, lastBoostTime = t\<rparr>, s)"
proof -
  have b: "boostPads (maxSpeed sprinter) (elapsedTime (gasIn t)) 12 22 (Some 17) (Some pi)
             (28, lastBoostTime padEntry0) = (168 / 5, t)"
    using assms(3)
    by (simp add: boostPads_unfold boostStep_def pads_at_pi padEntry0_def gasIn_def sprinter_def)
  show ?thesis
    using tick_frame [of sprinter "gasIn t" s padEntry0, unfolded assms, OF padEntry_motion b padEntry_lap]
    by simp
qed


lemma wall_tick:
  assumes "innerR s = 12" "outerR s = 22"
  shows "tick sprinter (gasIn t) (wall0, s)
     = (\<lparr>vel = 84 / 5, yaw = 0, pos = Some (22, 0), lastAngle = Some 0,
         checkpoint = False, lastBoostTime = 0\<rparr>, s)"
proof -
  have p: "pos wall0 = Some (22, 0)" by (simp add: wall0_def)
  have m: "motion sprinter (controlsOf (ctl (gasIn t))) (clampDt (delta (gasIn t))) (innerR s) (outerR s) wall0
      = \<lparr>fyaw = 0, fpos = Some (22, 0), fvel = 84 / 5, fr = Some (117 / 5), fang = Some 0\<rparr>"
    by (simp add: motion_Some [OF p] boundary_Some angleOf_def Let_def assms)
       (simp add: wall0_def gasIn_def keys_def controlsOf_def clampDt_def longitudinal_def
          steering_def sprinter_def clamp_def Let_def)
  have b: "boostPads (maxSpeed sprinter) (elapsedTime (gasIn t)) (innerR s) (outerR s) (Some (117 / 5)) (Some 0)
             (84 / 5, lastBoostTime wall0) = (84 / 5, 0)"
    by (rule trans [OF boostPads_none]) (simp_all add: noPad_zero wall0_def)
  have l: "lapDetect (innerR s) (outerR s) (Some (117 / 5)) (lastAngle wall0) (Some 0) (checkpoint wall0, s)
      = (False, s)"
    using pi_gt_zero
    by (simp add: lapDetect_def armed_def crossedHalf_def crossedStart_def lt_def ge_def gt_def le_def
        wall0_def assms Let_def del: pi_gt_zero)
  show ?thesis
    using tick_frame [OF m b l] by simp
qed





lemma farSide_tick:
  assumes "innerR s = 12" "outerR s = 22" "t \<le> 1"
  shows "tick sprinter (gasIn t) (farSide0, s)
     = (\<lparr>vel = 28, yaw = pi / 2, pos = Some (- 17, 7 / 10),
         lastAngle = Some (atan2 (7 / 10) (- 17)), checkpoint = False, lastBoostTime = 0\<rparr>,
        lapUpdate s)"
proof -
  have h1: "17 \<le> hypot (- 17) (7 / 10)" by (rule hypot_ge) simp
  have h2: "hypot (- 17) (7 / 10) \<le> 18" by (rule hypot_le) simp_all
  have m: "motion sprinter (controlsOf (ctl (gasIn t))) (clampDt (delta (gasIn t))) 12 22 farSide0
      = \<lparr>fyaw = pi / 2, fpos = Some (- 17, 7 / 10), fvel = 28,
         fr = Some (hypot (- 17) (7 / 10)), fang = Some (atan2 (7 / 10) (- 17))\<rparr>"
    using h1 h2
    by (subst motion_inside [where x = "- 17" and z = "- (7 / 10)" and ?v1.0 = 28
          and ?y1.0 = "pi / 2" and ?x1.0 = "- 17" and ?z1.0 = "7 / 10"])
       (simp_all add: farSide0_def gasIn_def keys_def controlsOf_def clampDt_def longitudinal_def
          steering_def sprinter_def clamp_def Let_def)
  have b: "boostPads (maxSpeed sprinter) (elapsedTime (gasIn t)) 12 22
             (Some (hypot (- 17) (7 / 10))) (Some (atan2 (7 / 10) (- 17)))
             (28, lastBoostTime farSide0) = (28, 0)"
    using assms(3) by (intro trans [OF boostPads_cooling]) (simp_all add: farSide0_def gasIn_def)
  have a: "- pi < atan2 (- (7 / 10)) (- 17) \<and> atan2 (- (7 / 10)) (- 17) < - (pi / 2)"
    by (rule atan2_third) simp_all
  have c: "pi / 2 < atan2 (7 / 10) (- 17) \<and> atan2 (7 / 10) (- 17) < pi"
    by (rule atan2_second) simp_all
  have q: "\<bar>hypot (- 17) (7 / 10) - 17\<bar> < 5" using h1 h2 by simp
  have l: "lapDetect 12 22 (Some (hypot (- 17) (7 / 10))) (lastAngle farSide0)
             (Some (atan2 (7 / 10) (- 17))) (checkpoint farSide0, s) = (False, lapUpdate s)"
    using a c q pi_gt_zero
    by (simp add: lapDetect_def armed_def crossedHalf_def crossedStart_def lt_def ge_def gt_def le_def
        farSide0_def Let_def del: pi_gt_zero)
  show ?thesis
    using tick_frame [of sprinter "gasIn t" s farSide0, unfolded assms(1,2), OF m b l]
    by simp
qed

lemma idleRun_idle: "list_all idle (idleRun n t)"
  by (induction n arbitrary: t) (simp_all add: idle_def idleIn_def keys_def controlsOf_def)


lemma halfway_motion:
  "motion sprinter (controlsOf (ctl (gasIn t))) (clampDt (delta (gasIn t))) 12 22 halfway0
      = \<lparr>fyaw = - (pi / 2), fpos = Some (- 17, - (7 / 10)), fvel = 28,
         fr = Some (hypot (- 17) (- (7 / 10))), fang = Some (atan2 (- (7 / 10)) (- 17))\<rparr>"
proof -
  have h1: "12 \<le> hypot (- 17) (- (7 / 10))" by (rule hypot_ge) simp
  have h2: "hypot (- 17) (- (7 / 10)) \<le> 22" by (rule hypot_le) simp_all
  show ?thesis
    using h1 h2
    by (subst motion_inside [where x = "- 17" and z = "7 / 10" and ?v1.0 = 28
          and ?y1.0 = "- (pi / 2)" and ?x1.0 = "- 17" and ?z1.0 = "- (7 / 10)"])
       (simp_all add: halfway0_def gasIn_def keys_def controlsOf_def clampDt_def longitudinal_def
          steering_def sprinter_def clamp_def Let_def)
qed

lemma coast_tick:
  assumes "innerR s = 12" "outerR s = 22" "- 3 \<le> v" "v \<le> 0" "13 \<le> x" "x \<le> 17"
  shows "tick sprinter (idleIn t) (coasting v x, s)
     = (coasting (v - 57 / 500) (x + (v - 57 / 500) / 20), s)"
proof -
  have q: "\<bar>x + (v - 57 / 500) / 20\<bar> = x + (v - 57 / 500) / 20" "12 \<le> x + (v - 57 / 500) / 20"
    "x + (v - 57 / 500) / 20 \<le> 22" "\<not> x + (v - 57 / 500) / 20 < 0"
    using assms(3-6) by (simp_all add: field_simps)
  have m: "motion sprinter (controlsOf (ctl (idleIn t))) (clampDt (delta (idleIn t))) 12 22 (coasting v x)
      = \<lparr>fyaw = 0, fpos = Some (x + (v - 57 / 500) / 20, 0), fvel = v - 57 / 500,
         fr = Some (x + (v - 57 / 500) / 20), fang = Some 0\<rparr>"
    using assms(3-6) q
    by (subst motion_inside [where x = x and z = 0 and ?v1.0 = "v - 57 / 500"
          and ?y1.0 = 0 and ?x1.0 = "x + (v - 57 / 500) / 20" and ?z1.0 = 0])
       (simp_all add: coasting_def idleIn_def keys_def controlsOf_def clampDt_def longitudinal_def
          steering_def sprinter_def clamp_def Let_def)
  have b: "boostPads (maxSpeed sprinter) (elapsedTime (idleIn t)) 12 22 (Some (x + (v - 57 / 500) / 20)) (Some 0)
             (v - 57 / 500, lastBoostTime (coasting v x)) = (v - 57 / 500, 0)"
    by (rule trans [OF boostPads_none]) (simp_all add: noPad_zero coasting_def)
  have l: "lapDetect 12 22 (Some (x + (v - 57 / 500) / 20)) (lastAngle (coasting v x)) (Some 0)
             (checkpoint (coasting v x), s) = (False, s)"
    using pi_gt_zero
    by (simp add: lapDetect_def armed_def crossedHalf_def crossedStart_def lt_def ge_def gt_def le_def
        coasting_def Let_def del: pi_gt_zero)
  show ?thesis
    using tick_frame [of sprinter "idleIn t" s "coasting v x", unfolded assms(1,2), OF m b l]
    by (simp add: coasting_def)
qed

lemma kartInit_coasting: "kartInit = coasting 0 17"
  by (simp add: kartInit_def coasting_def)

lemma farm_tick1:
  assumes "innerR s = 12" "outerR s = 22"
  shows "tick sprinter (farmBrake t) (farm0, s) = (farm1, s)"
proof -
  have h1: "21 \<le> hypot (- 21) (- (1184859 / 312500000))" by (rule hypot_ge) simp
  have h2: "hypot (- 21) (- (1184859 / 312500000)) \<le> 22" by (rule hypot_le) simp_all
  have m: "motion sprinter (controlsOf (ctl (farmBrake t))) (clampDt (delta (farmBrake t))) 12 22 farm0
      = \<lparr>fyaw = pi / 2, fpos = Some (- 21, - (1184859 / 312500000)), fvel = - (9633 / 62500),
         fr = Some (hypot (- 21) (- (1184859 / 312500000))),
         fang = Some (atan2 (- (1184859 / 312500000)) (- 21))\<rparr>"
    using h1 h2
    by (subst motion_inside [where x = "- 21" and z = 0 and ?v1.0 = "- (9633 / 62500)"
          and ?y1.0 = "pi / 2" and ?x1.0 = "- 21" and ?z1.0 = "- (1184859 / 312500000)"])
       (simp_all add: farm0_def farmBrake_def keys_def controlsOf_def clampDt_def longitudinal_def
          steering_def sprinter_def clamp_def Let_def)
  have b: "boostPads (maxSpeed sprinter) (elapsedTime (farmBrake t)) 12 22
             (Some (hypot (- 21) (- (1184859 / 312500000)))) (Some (atan2 (- (1184859 / 312500000)) (- 21)))
             (- (9633 / 62500), lastBoostTime farm0) = (- (9633 / 62500), 0)"
    using h1 by (intro trans [OF boostPads_none] noPad_far) (simp_all add: farm0_def)
  have a: "- pi < atan2 (- (1184859 / 312500000)) (- 21) \<and> atan2 (- (1184859 / 312500000)) (- 21) < - (pi / 2)"
    by (rule atan2_third) simp_all
  have l: "lapDetect 12 22 (Some (hypot (- 21) (- (1184859 / 312500000)))) (lastAngle farm0)
             (Some (atan2 (- (1184859 / 312500000)) (- 21))) (checkpoint farm0, s) = (False, s)"
    using a pi_gt_zero
    by (simp add: lapDetect_def armed_def crossedHalf_def crossedStart_def lt_def ge_def gt_def le_def
        farm0_def Let_def del: pi_gt_zero)
  show ?thesis
    using tick_frame [of sprinter "farmBrake t" s farm0, unfolded assms, OF m b l]
    by (simp add: farm1_def)
qed

lemma farm_tick2:
  assumes "innerR s = 12" "outerR s = 22"
  shows "tick sprinter (farmGas t) (farm1, s) = (farm0, lapUpdate s)"
proof -
  have m: "motion sprinter (controlsOf (ctl (farmGas t))) (clampDt (delta (farmGas t))) 12 22 farm1
      = \<lparr>fyaw = pi / 2, fpos = Some (- 21, 0), fvel = 2223 / 25000, fr = Some 21, fang = Some pi\<rparr>"
    by (subst motion_inside [where x = "- 21" and z = "- (1184859 / 312500000)" and ?v1.0 = "2223 / 25000"
          and ?y1.0 = "pi / 2" and ?x1.0 = "- 21" and ?z1.0 = 0])
       (simp_all add: farm1_def farmGas_def keys_def controlsOf_def clampDt_def longitudinal_def
          steering_def sprinter_def clamp_def Let_def)
  have b: "boostPads (maxSpeed sprinter) (elapsedTime (farmGas t)) 12 22 (Some 21) (Some pi)
             (2223 / 25000, lastBoostTime farm1) = (2223 / 25000, 0)"
    by (rule trans [OF boostPads_none]) (simp_all add: noPad_far farm1_def)
  have a: "- pi < atan2 (- (1184859 / 312500000)) (- 21) \<and> atan2 (- (1184859 / 312500000)) (- 21) < - (pi / 2)"
    by (rule atan2_third) simp_all
  have l: "lapDetect 12 22 (Some 21) (lastAngle farm1) (Some pi) (checkpoint farm1, s)
      = (False, lapUpdate s)"
    using a pi_gt_zero
    by (simp add: lapDetect_def armed_def crossedHalf_def crossedStart_def lt_def ge_def gt_def le_def
        farm1_def Let_def del: pi_gt_zero)
  show ?thesis
    using tick_frame [of sprinter "farmGas t" s farm1, unfolded assms, OF m b l]
    by (simp add: farm0_def)
qed

text \<open>Braking back and driving forward over the half-axis opposite the start line counts
  a lap with every pair of frames: the lap counter passes every bound.\<close>

lemma lap_farming:
  assumes "innerR s = 12" "outerR s = 22"
  shows "fst (run sprinter (farm n t) (farm0, s)) = farm0
       \<and> currentLap (snd (run sprinter (farm n t) (farm0, s))) = currentLap s + int n"
  using assms
proof (induction n arbitrary: s t)
  case 0
  then show ?case by simp
next
  case (Suc n)
  have i: "innerR (lapUpdate s) = 12" "outerR (lapUpdate s) = 22" using Suc.prems by simp_all
  show ?case
    using Suc.IH [OF i, of "t + 1681 / 25000"]
    by (simp add: farm_tick1 farm_tick2 Suc.prems)
qed

subsection \<open>C1: the half-lap checkpoint\<close>

text \<open>
  C1 (the code misses the crossing). A kart whose angle is just below \<open>pi\<close> before a
  callback and just above \<open>- pi\<close> after it has crossed the discontinuity, and the
  checkpoint flag is still false after that callback: the angle of line 462 lies in
  \<open>(- pi, pi]\<close>, so the tests \<open>ang >= pi\<close> and \<open>ang <= - pi\<close> of line 476 do not see a
  jump from one side to the other.
\<close>

theorem half_lap_not_armed:
  "pi / 2 < atan2 (7 / 10) (- 17) \<and> atan2 (7 / 10) (- 17) < pi
   \<and> - pi < atan2 (- (7 / 10)) (- 17) \<and> atan2 (- (7 / 10)) (- 17) < - (pi / 2)
   \<and> tick sprinter (gasIn (1 / 2)) (halfway0, raceStoreInit)
      = (\<lparr>vel = 28, yaw = - (pi / 2), pos = Some (- 17, - (7 / 10)),
          lastAngle = Some (atan2 (- (7 / 10)) (- 17)), checkpoint = False, lastBoostTime = 0\<rparr>,
         raceStoreInit)"
proof -
  have a: "pi / 2 < atan2 (7 / 10) (- 17) \<and> atan2 (7 / 10) (- 17) < pi"
    by (rule atan2_second) simp_all
  have b: "- pi < atan2 (- (7 / 10)) (- 17) \<and> atan2 (- (7 / 10)) (- 17) < - (pi / 2)"
    by (rule atan2_third) simp_all
  have i: "innerR raceStoreInit = 12" "outerR raceStoreInit = 22" by (simp_all add: raceStoreInit_def)
  have p: "boostPads (maxSpeed sprinter) (elapsedTime (gasIn (1 / 2))) 12 22
             (Some (hypot (- 17) (- (7 / 10)))) (Some (atan2 (- (7 / 10)) (- 17)))
             (28, lastBoostTime halfway0) = (28, 0)"
    by (rule trans [OF boostPads_cooling]) (simp_all add: halfway0_def gasIn_def)
  have l: "lapDetect 12 22 (Some (hypot (- 17) (- (7 / 10)))) (lastAngle halfway0)
             (Some (atan2 (- (7 / 10)) (- 17))) (checkpoint halfway0, raceStoreInit) = (False, raceStoreInit)"
    using a b pi_gt_zero
    by (simp add: lapDetect_def armed_def crossedHalf_def crossedStart_def lt_def ge_def gt_def le_def
        halfway0_def Let_def del: pi_gt_zero)
  have t: "tick sprinter (gasIn (1 / 2)) (halfway0, raceStoreInit)
      = (\<lparr>vel = 28, yaw = - (pi / 2), pos = Some (- 17, - (7 / 10)),
          lastAngle = Some (atan2 (- (7 / 10)) (- 17)), checkpoint = False, lastBoostTime = 0\<rparr>,
         raceStoreInit)"
    using tick_frame [of sprinter "gasIn (1 / 2)" raceStoreInit halfway0, unfolded i, OF halfway_motion p l]
    by simp
  from a b t show ?thesis by blast
qed

subsection \<open>C2: the range of the speed\<close>

text \<open>
  C2 (amended). For a car with a positive \<open>maxSpeed\<close>, in every callback, whatever the
  four flags and the frame delta: the speed lies in \<open>[-0.3 maxSpeed, maxSpeed]\<close> after the
  longitudinal phase (lines 435 to 437) and after the boundary phase (lines 452 to 459),
  and at the end of the callback, after the boost pads, it lies in
  \<open>[-0.3 maxSpeed, 1.2 maxSpeed]\<close>.
\<close>

theorem speed_bounds:
  assumes "0 < maxSpeed c"
  shows "let v1 = longitudinal c (controlsOf (ctl i)) (clampDt (delta i)) (vel k);
             f = motion c (controlsOf (ctl i)) (clampDt (delta i)) (innerR s) (outerR s) k;
             k' = fst (tick c i (k, s))
         in - maxSpeed c * (3 / 10) \<le> v1 \<and> v1 \<le> maxSpeed c
          \<and> - maxSpeed c * (3 / 10) \<le> fvel f \<and> fvel f \<le> maxSpeed c
          \<and> - maxSpeed c * (3 / 10) \<le> vel k' \<and> vel k' \<le> maxSpeed c * (12 / 10)"
proof -
  have m: "0 \<le> maxSpeed c" using assms by simp
  note l = longitudinal_range [OF m, of "controlsOf (ctl i)" "clampDt (delta i)" "vel k"]
  have b: "- maxSpeed c * (3 / 10) \<le> fvel (motion c (controlsOf (ctl i)) (clampDt (delta i)) (innerR s) (outerR s) k)
      \<and> fvel (motion c (controlsOf (ctl i)) (clampDt (delta i)) (innerR s) (outerR s) k) \<le> maxSpeed c"
    unfolding motion_fvel using l by (intro boundary_vel_range m) simp_all
  then have b2: "fst (fvel (motion c (controlsOf (ctl i)) (clampDt (delta i)) (innerR s) (outerR s) k), lastBoostTime k)
      \<le> maxSpeed c * (12 / 10)"
    using m by simp
  have b1: "- maxSpeed c * (3 / 10)
      \<le> fst (fvel (motion c (controlsOf (ctl i)) (clampDt (delta i)) (innerR s) (outerR s) k), lastBoostTime k)"
    using b by simp
  have e: "- maxSpeed c * (3 / 10) \<le> vel (fst (tick c i (k, s)))
      \<and> vel (fst (tick c i (k, s))) \<le> maxSpeed c * (12 / 10)"
    unfolding tick_vel by (rule boostPads_range [OF m b1 b2])
  show ?thesis using l b e by (simp add: Let_def)
qed

theorem speed_bounds_witness:
  "0 < maxSpeed sprinter
   \<and> - maxSpeed sprinter * (3 / 10) \<le> vel (fst (tick sprinter (gasIn 30) (padEntry0, raceStoreInit)))
   \<and> vel (fst (tick sprinter (gasIn 30) (padEntry0, raceStoreInit))) = maxSpeed sprinter * (12 / 10)"
proof -
  have t: "tick sprinter (gasIn 30) (padEntry0, raceStoreInit)
     = (\<lparr>vel = 168 / 5, yaw = - (pi / 2), pos = Some (- 17, 0), lastAngle = Some pi,
         checkpoint = True, lastBoostTime = 30\<rparr>, raceStoreInit)"
    by (rule padEntry_tick_boost) (simp_all add: raceStoreInit_def)
  have v: "maxSpeed sprinter = 28" by (simp add: sprinter_def)
  show ?thesis
    using speed_bounds [of sprinter "gasIn 30" padEntry0 raceStoreInit]
    by (simp add: t v)
qed

text \<open>
  The upper bound \<open>maxSpeed\<close> itself fails at the end of a callback: a kart at
  \<open>maxSpeed\<close> that enters the window at \<open>pi\<close> more than a second after its last boost
  leaves the callback at \<open>1.2 maxSpeed\<close>.
\<close>

theorem speed_exceeds_maxSpeed:
  "0 < clampDt (delta (gasIn 30)) \<and> clampDt (delta (gasIn 30)) \<le> 5 / 100
   \<and> vel padEntry0 \<le> maxSpeed sprinter
   \<and> vel (fst (tick sprinter (gasIn 30) (padEntry0, raceStoreInit))) = 168 / 5
   \<and> \<not> vel (fst (tick sprinter (gasIn 30) (padEntry0, raceStoreInit))) \<le> maxSpeed sprinter"
proof -
  have t: "tick sprinter (gasIn 30) (padEntry0, raceStoreInit)
     = (\<lparr>vel = 168 / 5, yaw = - (pi / 2), pos = Some (- 17, 0), lastAngle = Some pi,
         checkpoint = True, lastBoostTime = 30\<rparr>, raceStoreInit)"
    by (rule padEntry_tick_boost) (simp_all add: raceStoreInit_def)
  have d: "clampDt (delta (gasIn 30)) = 1 / 20" by (simp add: clampDt_def gasIn_def)
  have v: "vel padEntry0 = 28" "maxSpeed sprinter = 28" by (simp_all add: padEntry0_def sprinter_def)
  show ?thesis by (simp add: t d v)
qed

subsection \<open>C3: a kart left alone\<close>

text \<open>
  C3 (amended). While all four flags are false the heading is unchanged, after any number
  of frames. The position is not held: for a car with positive \<open>accel\<close> and \<open>maxSpeed\<close> and
  a frame with a positive delta, a kart at speed 0 leaves the longitudinal phase with a
  negative speed, not below \<open>-0.3 maxSpeed\<close> (the coast decay of line 436 goes below zero),
  the steering phase keeps the heading, and the position integration of lines 446 and 447
  moves the kart off its position, backwards along its heading by speed times delta.
\<close>

theorem idle_keeps_heading:
  assumes "list_all idle ins" and "idle i"
    and "0 < accel c" and "0 < maxSpeed c" and "0 < delta i"
    and "vel k = 0" and "pos k = Some (x, z)"
  shows "yaw (fst (run c ins (k, s))) = yaw k
       \<and> (let d = clampDt (delta i);
               v1 = longitudinal c (controlsOf (ctl i)) d (vel k)
           in v1 < 0 \<and> - maxSpeed c * (3 / 10) \<le> v1
            \<and> steering c (controlsOf (ctl i)) d v1 (yaw k) = yaw k
            \<and> integrate (yaw k) v1 d (pos k) = Some (x + cos (yaw k) * v1 * d, z + sin (yaw k) * v1 * d)
            \<and> (x + cos (yaw k) * v1 * d, z + sin (yaw k) * v1 * d) \<noteq> (x, z))"
proof -
  define d where "d = clampDt (delta i)"
  define v1 where "v1 = longitudinal c (controlsOf (ctl i)) d (vel k)"
  have d: "0 < d" using assms(5) by (simp add: d_def clampDt_def)
  have ud: "\<not> up (controlsOf (ctl i))" "\<not> down (controlsOf (ctl i))"
    using assms(2) by (simp_all add: idle_def)
  have neg: "v1 < 0"
    unfolding v1_def assms(6) by (rule coast_from_rest_negative [OF assms(3,4) d ud])
  have low: "- maxSpeed c * (3 / 10) \<le> v1"
    unfolding v1_def using longitudinal_range [of c] assms(4) by simp
  have st: "steering c (controlsOf (ctl i)) d v1 (yaw k) = yaw k"
    using assms(2) by (simp add: idle_def steering_def Let_def)
  have ig: "integrate (yaw k) v1 d (pos k) = Some (x + cos (yaw k) * v1 * d, z + sin (yaw k) * v1 * d)"
    by (simp add: integrate_def assms(7))
  have vd: "v1 * d \<noteq> 0" using neg d by simp
  have mv: "(x + cos (yaw k) * v1 * d, z + sin (yaw k) * v1 * d) \<noteq> (x, z)"
  proof
    assume "(x + cos (yaw k) * v1 * d, z + sin (yaw k) * v1 * d) = (x, z)"
    then have "cos (yaw k) * (v1 * d) = 0" "sin (yaw k) * (v1 * d) = 0"
      by (simp_all add: mult.assoc)
    with vd have "cos (yaw k) = 0" "sin (yaw k) = 0" by simp_all
    then have "(sin (yaw k))\<^sup>2 + (cos (yaw k))\<^sup>2 = 0" by simp
    then show False by simp
  qed
  have hd: "yaw (fst (run c ins (k, s))) = yaw k"
    using idle_run_yaw [OF assms(1), of c "(k, s)"] by simp
  show ?thesis
    using hd neg low st ig mv by (simp add: Let_def d_def [symmetric] v1_def [symmetric])
qed

theorem idle_keeps_heading_witness:
  "list_all idle (idleRun 20 0) \<and> idle (idleIn (1 / 20))
   \<and> 0 < accel sprinter \<and> 0 < maxSpeed sprinter \<and> 0 < delta (idleIn (1 / 20))
   \<and> vel kartInit = 0 \<and> pos kartInit = Some (17, 0)
   \<and> yaw (fst (run sprinter (idleRun 20 0) (kartInit, startRace 3 raceStoreInit))) = yaw kartInit
   \<and> longitudinal sprinter (controlsOf (ctl (idleIn (1 / 20)))) (clampDt (delta (idleIn (1 / 20)))) (vel kartInit)
       = - (57 / 500)
   \<and> integrate (yaw kartInit) (- (57 / 500)) (clampDt (delta (idleIn (1 / 20)))) (pos kartInit)
       = Some (169943 / 10000, 0)"
proof -
  have a: "list_all idle (idleRun 20 0)" by (rule idleRun_idle)
  have b: "idle (idleIn (1 / 20))" by (simp add: idle_def idleIn_def keys_def controlsOf_def)
  have c: "0 < accel sprinter" "0 < maxSpeed sprinter" by (simp_all add: sprinter_def)
  have d: "0 < delta (idleIn (1 / 20))" by (simp add: idleIn_def)
  have e: "vel kartInit = 0" "pos kartInit = Some (17, 0)" "yaw kartInit = 0"
    by (simp_all add: kartInit_def)
  have v: "longitudinal sprinter (controlsOf (ctl (idleIn (1 / 20)))) (clampDt (delta (idleIn (1 / 20)))) 0
      = - (57 / 500)"
    by (simp add: longitudinal_def idleIn_def keys_def controlsOf_def clampDt_def sprinter_def
        clamp_def Let_def)
  have g: "integrate 0 (- (57 / 500)) (clampDt (delta (idleIn (1 / 20)))) (Some (17, 0))
      = Some (169943 / 10000, 0)"
    by (simp add: integrate_def idleIn_def clampDt_def)
  note T = idle_keeps_heading [OF a b c d e(1,2), of "startRace 3 raceStoreInit"]
  from T a b c d e v g show ?thesis by (simp add: Let_def)
qed

text \<open>
  The kart of a fresh session, given one second of frames with all four flags false (20
  frames of 1/20 s), is not where it started: it has rolled back from \<open>x = 17\<close> to
  \<open>x = 15.803\<close> and its speed is \<open>-2.28\<close>.
\<close>

theorem kart_at_rest_rolls_back:
  "vel kartInit = 0 \<and> yaw kartInit = 0 \<and> pos kartInit = Some (17, 0)
   \<and> list_all idle (idleRun 20 0)
   \<and> pos (fst (run sprinter (idleRun 20 0) (kartInit, startRace 3 raceStoreInit)))
       = Some (15803 / 1000, 0)
   \<and> pos (fst (run sprinter (idleRun 20 0) (kartInit, startRace 3 raceStoreInit))) \<noteq> pos kartInit
   \<and> vel (fst (run sprinter (idleRun 20 0) (kartInit, startRace 3 raceStoreInit))) = - (57 / 25)"
proof -
  have i: "innerR (startRace 3 raceStoreInit) = 12" "outerR (startRace 3 raceStoreInit) = 22"
    by (simp_all add: startRace_def raceStoreInit_def)
  have r: "run sprinter (idleRun 20 0) (coasting 0 17, startRace 3 raceStoreInit)
      = (coasting (- (57 / 25)) (15803 / 1000), startRace 3 raceStoreInit)"
    by (simp add: eval_nat_numeral coast_tick i)
  have k: "vel kartInit = 0" "yaw kartInit = 0" "pos kartInit = Some (17, 0)"
    by (simp_all add: kartInit_def)
  have c: "pos (coasting (- (57 / 25)) (15803 / 1000)) = Some (15803 / 1000, 0)"
    "vel (coasting (- (57 / 25)) (15803 / 1000)) = - (57 / 25)"
    by (simp_all add: coasting_def)
  show ?thesis
    using r idleRun_idle [of 20 0] by (simp add: kartInit_coasting [symmetric] k c)
qed

subsection \<open>C4: lap completion\<close>

text \<open>
  C4 (the code also counts a lap on the far side). A kart with the checkpoint armed drives
  backwards past the point opposite the start line, from \<open>(-17, -0.7)\<close> to \<open>(-17, 0.7)\<close>.
  Its angle jumps from just above \<open>- pi\<close> to just below \<open>pi\<close>: it is never between
  \<open>- pi / 2\<close> and \<open>pi / 2\<close>, so it does not cross zero, and the kart is nowhere near the
  positive x axis of the comment of line 473. Condition (a) fails, and yet the callback
  takes the lap counter from 1 to 2 and clears the checkpoint: the test of line 475,
  \<open>angPrev < 0\<close> and \<open>ang >= 0\<close>, holds for a jump across the discontinuity as it does for a
  passage through zero.
\<close>

theorem lap_counted_on_far_side:
  "- pi < atan2 (- (7 / 10)) (- 17) \<and> atan2 (- (7 / 10)) (- 17) < - (pi / 2)
   \<and> pi / 2 < atan2 (7 / 10) (- 17) \<and> atan2 (7 / 10) (- 17) < pi
   \<and> lastAngle farSide0 = Some (atan2 (- (7 / 10)) (- 17)) \<and> checkpoint farSide0
   \<and> tick sprinter (gasIn (1 / 2)) (farSide0, store 1 3 False)
      = (\<lparr>vel = 28, yaw = pi / 2, pos = Some (- 17, 7 / 10),
          lastAngle = Some (atan2 (7 / 10) (- 17)), checkpoint = False, lastBoostTime = 0\<rparr>,
         store 2 3 False)"
proof -
  have a: "- pi < atan2 (- (7 / 10)) (- 17) \<and> atan2 (- (7 / 10)) (- 17) < - (pi / 2)"
    by (rule atan2_third) simp_all
  have c: "pi / 2 < atan2 (7 / 10) (- 17) \<and> atan2 (7 / 10) (- 17) < pi"
    by (rule atan2_second) simp_all
  have f: "lastAngle farSide0 = Some (atan2 (- (7 / 10)) (- 17))" "checkpoint farSide0"
    by (simp_all add: farSide0_def)
  have t: "tick sprinter (gasIn (1 / 2)) (farSide0, store 1 3 False)
      = (\<lparr>vel = 28, yaw = pi / 2, pos = Some (- 17, 7 / 10),
          lastAngle = Some (atan2 (7 / 10) (- 17)), checkpoint = False, lastBoostTime = 0\<rparr>,
         store 2 3 False)"
    by (simp add: farSide_tick)
  from a c f t show ?thesis by blast
qed

text \<open>What the callback does test: the lap counter grows, by one, exactly when the stored
  angle is negative, the new angle is not, the radius \<open>r\<close> of line 450 is within half the ring
  width of the centre-line radius, and the checkpoint flag is set when line 478 reads it,
  after line 477 of the same callback. So every crossing of the start line with the flag
  armed is counted; the far side is counted as well.\<close>

lemma lap_counted_iff:
  "let k = fst w; s = snd w;
       f = motion c (controlsOf (ctl i)) (clampDt (delta i)) (innerR s) (outerR s) k;
       w' = tick c i w
   in if (\<exists>ap a rv. lastAngle k = Some ap \<and> fang f = Some a \<and> fr f = Some rv
            \<and> ap < 0 \<and> 0 \<le> a \<and> \<bar>rv - (innerR s + outerR s) / 2\<bar> < (outerR s - innerR s) / 2)
         \<and> armed (checkpoint k) (lastAngle k) (fang f)
      then currentLap (snd w') = currentLap s + 1 \<and> \<not> checkpoint (fst w')
         \<and> finished (snd w') = (totalLaps (snd w') < currentLap (snd w'))
      else currentLap (snd w') = currentLap s"
proof -
  define k where "k = fst w"
  define s where "s = snd w"
  define f where "f = motion c (controlsOf (ctl i)) (clampDt (delta i)) (innerR s) (outerR s) k"
  have cs: "crossedStart (innerR s) (outerR s) (fr f) (lastAngle k) (fang f) =
      (\<exists>ap a rv. lastAngle k = Some ap \<and> fang f = Some a \<and> fr f = Some rv
            \<and> ap < 0 \<and> 0 \<le> a \<and> \<bar>rv - (innerR s + outerR s) / 2\<bar> < (outerR s - innerR s) / 2)"
    by (cases "lastAngle k"; cases "fang f"; cases "fr f")
       (simp_all add: crossedStart_def lt_def ge_def Let_def)
  show ?thesis
    unfolding Let_def k_def [symmetric] s_def [symmetric] f_def [symmetric] cs [symmetric]
    by (simp add: tick_snd tick_checkpoint k_def s_def f_def Let_def)
qed

text \<open>A crossing of the start line with the flag armed, counted; and a frame on the far
  side with the stored angle \<open>pi\<close>, not counted.\<close>

lemma lap_counted_iff_instance:
  "lastAngle atStart0 = Some (atan2 (- (7 / 5)) 17) \<and> atan2 (- (7 / 5)) 17 < 0
   \<and> fang (motion sprinter (controlsOf (ctl (gasIn 30))) (clampDt (delta (gasIn 30))) 12 22 atStart0) = Some 0
   \<and> fr (motion sprinter (controlsOf (ctl (gasIn 30))) (clampDt (delta (gasIn 30))) 12 22 atStart0) = Some 17
   \<and> checkpoint atStart0
   \<and> currentLap (snd (tick sprinter (gasIn 30) (atStart0, store 3 3 False))) = 4
   \<and> \<not> checkpoint (fst (tick sprinter (gasIn 30) (atStart0, store 3 3 False)))
   \<and> finished (snd (tick sprinter (gasIn 30) (atStart0, store 3 3 False)))
   \<and> currentLap (snd (tick sprinter (brakeIn 30) (wiggle1, store 3 3 False))) = 3"
proof -
  have a: "atan2 (- (7 / 5)) 17 < 0" using atan2_fourth [of 17 "- (7 / 5)"] by simp
  have m: "motion sprinter (controlsOf (ctl (gasIn 30))) (clampDt (delta (gasIn 30))) 12 22 atStart0
      = \<lparr>fyaw = pi / 2, fpos = Some (17, 0), fvel = 28, fr = Some 17, fang = Some 0\<rparr>"
    by (subst motion_inside [where x = 17 and z = "- (7 / 5)" and ?v1.0 = 28
          and ?y1.0 = "pi / 2" and ?x1.0 = 17 and ?z1.0 = 0])
       (simp_all add: atStart0_def gasIn_def keys_def controlsOf_def clampDt_def longitudinal_def
          steering_def sprinter_def clamp_def Let_def)
  have t1: "tick sprinter (gasIn 30) (atStart0, store 3 3 False) = (atStart1, store 4 3 True)"
    by (simp add: atStart_tick)
  have t2: "tick sprinter (brakeIn 30) (wiggle1, store 3 3 False) = (wiggle2, store 3 3 False)"
    by (simp add: wiggle_tick2)
  have c: "lastAngle atStart0 = Some (atan2 (- (7 / 5)) 17)" "checkpoint atStart0"
    "\<not> checkpoint atStart1" "lastAngle wiggle1 = Some pi"
    by (simp_all add: atStart0_def atStart1_def wiggle1_def)
  show ?thesis
    using lap_counted_iff [of "(atStart0, store 3 3 False)" sprinter "gasIn 30"]
      lap_counted_iff [of "(wiggle1, store 3 3 False)" sprinter "brakeIn 30"] a
    by (simp add: m t1 t2 c armed_def Let_def)
qed

subsection \<open>C5: the finished flag is a latch\<close>

lemma tick_latched: "latched (snd w) \<Longrightarrow> latched (snd (tick c i w))"
  using tick_lap_cases [of c i w] by (auto simp: latched_def)

lemma tick_pending: "pending (snd w) \<Longrightarrow> pending (snd (tick c i w)) \<or> latched (snd (tick c i w))"
  using tick_lap_cases [of c i w] by (auto simp: latched_def pending_def)

lemma run_latched: "latched (snd w) \<Longrightarrow> latched (snd (run c ins w))"
  by (induction ins arbitrary: w) (simp_all add: tick_latched)

lemma run_pending: "pending (snd w) \<Longrightarrow> pending (snd (run c ins w)) \<or> latched (snd (run c ins w))"
proof (induction ins arbitrary: w)
  case Nil
  then show ?case by simp
next
  case (Cons i ins)
  from tick_pending [OF Cons.prems, of c i] show ?case
  proof
    assume "pending (snd (tick c i w))"
    then show ?thesis using Cons.IH by simp
  next
    assume "latched (snd (tick c i w))"
    then show ?thesis using run_latched by simp
  qed
qed

lemma trace_latched:
  "latched (snd w) \<Longrightarrow> rises True (finishedTrace c ins w) = 0 \<and> falls True (finishedTrace c ins w) = 0"
proof (induction ins arbitrary: w)
  case Nil
  then show ?case by simp
next
  case (Cons i ins)
  have l: "latched (snd (tick c i w))" using Cons.prems by (rule tick_latched)
  then have "finished (snd (tick c i w))" by (simp add: latched_def)
  then show ?case using Cons.IH [OF l] by simp
qed

lemma trace_pending:
  "pending (snd w) \<Longrightarrow> rises False (finishedTrace c ins w) \<le> 1 \<and> falls False (finishedTrace c ins w) = 0"
proof (induction ins arbitrary: w)
  case Nil
  then show ?case by simp
next
  case (Cons i ins)
  from tick_pending [OF Cons.prems, of c i] show ?case
  proof
    assume p: "pending (snd (tick c i w))"
    then have "\<not> finished (snd (tick c i w))" by (simp add: pending_def)
    then show ?thesis using Cons.IH [OF p] by simp
  next
    assume l: "latched (snd (tick c i w))"
    then have "finished (snd (tick c i w))" by (simp add: latched_def)
    then show ?thesis using trace_latched [OF l, of c ins] by simp
  qed
qed

text \<open>
  C5. In a session, which starts with \<open>currentLap = 1\<close> and \<open>finished = false\<close>, and
  under every sequence of callbacks: the flag \<open>finished\<close> goes from false to true at most
  once and never from true to false; once it is true it is true after every longer run;
  and the callback in which it becomes true is a lap completion (the counter grows by one)
  whose new counter exceeds \<open>totalLaps\<close>, while the counter before it did not (or was
  still the initial 1).
\<close>

theorem finished_latch:
  assumes "currentLap s = 1" and "\<not> finished s"
  shows "rises False (finishedTrace c ins (k, s)) \<le> 1
       \<and> falls False (finishedTrace c ins (k, s)) = 0
       \<and> (finished (snd (run c pre (k, s))) \<longrightarrow> finished (snd (run c (pre @ rest) (k, s))))
       \<and> (\<not> finished (snd (run c bef (k, s))) \<and> finished (snd (tick c i (run c bef (k, s)))) \<longrightarrow>
            currentLap (snd (tick c i (run c bef (k, s)))) = currentLap (snd (run c bef (k, s))) + 1
          \<and> totalLaps s < currentLap (snd (tick c i (run c bef (k, s))))
          \<and> (currentLap (snd (run c bef (k, s))) \<le> totalLaps s \<or> currentLap (snd (run c bef (k, s))) = 1))"
proof -
  have p: "pending (snd (k, s))" using assms by (simp add: pending_def)
  have a: "rises False (finishedTrace c ins (k, s)) \<le> 1 \<and> falls False (finishedTrace c ins (k, s)) = 0"
    using trace_pending [OF p] by simp
  have pl: "pending (snd (run c xs (k, s))) \<or> latched (snd (run c xs (k, s)))" for xs
    using run_pending [OF p] .
  have b: "finished (snd (run c pre (k, s))) \<longrightarrow> finished (snd (run c (pre @ rest) (k, s)))"
  proof
    assume "finished (snd (run c pre (k, s)))"
    with pl [of pre] have "latched (snd (run c pre (k, s)))" by (auto simp: pending_def)
    then have "latched (snd (run c rest (run c pre (k, s))))" by (rule run_latched)
    then show "finished (snd (run c (pre @ rest) (k, s)))" by (simp add: run_append latched_def)
  qed
  have t: "totalLaps (snd (run c bef (k, s))) = totalLaps s" by simp
  have d: "\<not> finished (snd (run c bef (k, s))) \<and> finished (snd (tick c i (run c bef (k, s)))) \<longrightarrow>
            currentLap (snd (tick c i (run c bef (k, s)))) = currentLap (snd (run c bef (k, s))) + 1
          \<and> totalLaps s < currentLap (snd (tick c i (run c bef (k, s))))
          \<and> (currentLap (snd (run c bef (k, s))) \<le> totalLaps s \<or> currentLap (snd (run c bef (k, s))) = 1)"
    using tick_lap_cases [of c i "run c bef (k, s)"] pl [of bef] t
    by (auto simp: pending_def latched_def)
  from a b d show ?thesis by blast
qed

theorem finished_latch_witness:
  "currentLap (startRace 1 raceStoreInit) = 1 \<and> \<not> finished (startRace 1 raceStoreInit)
   \<and> rises False (finishedTrace sprinter [gasIn 30, brakeIn (601 / 20), gasIn (301 / 10)]
        (wiggle0, startRace 1 raceStoreInit)) = 1
   \<and> falls False (finishedTrace sprinter [gasIn 30, brakeIn (601 / 20), gasIn (301 / 10)]
        (wiggle0, startRace 1 raceStoreInit)) = 0
   \<and> finished (snd (run sprinter [gasIn 30] (wiggle0, startRace 1 raceStoreInit)))
   \<and> finished (snd (run sprinter ([gasIn 30] @ [brakeIn (601 / 20), gasIn (301 / 10)])
        (wiggle0, startRace 1 raceStoreInit)))
   \<and> \<not> finished (snd (run sprinter [] (wiggle0, startRace 1 raceStoreInit)))
   \<and> finished (snd (tick sprinter (gasIn 30) (run sprinter [] (wiggle0, startRace 1 raceStoreInit))))
   \<and> currentLap (snd (tick sprinter (gasIn 30) (run sprinter [] (wiggle0, startRace 1 raceStoreInit)))) = 2
   \<and> totalLaps (startRace 1 raceStoreInit) = 1"
  using finished_latch [of "startRace 1 raceStoreInit" sprinter
      "[gasIn 30, brakeIn (601 / 20), gasIn (301 / 10)]" wiggle0 "[gasIn 30]"
      "[brakeIn (601 / 20), gasIn (301 / 10)]" "[]" "gasIn 30"]
  by (simp add: wiggle_tick1 wiggle_tick2 wiggle_tick3 startRace_def raceStoreInit_def)

subsection \<open>C6: the track boundary\<close>

text \<open>
  C6. With \<open>0 \<le> innerR \<le> outerR\<close>, in every callback whose radius \<open>r\<close> of line 450 (the
  position before the boundary phase) is positive, the position the callback leaves is a
  finite point whose distance from the centre lies in \<open>[innerR - e, outerR + e]\<close>, for every
  \<open>e \<ge> 0\<close>. In particular, with \<open>innerR = 12\<close> and \<open>outerR = 22\<close>, the boundary phase moves
  every point at radius 30 to a point at radius 22 and multiplies the speed by 0.6.
\<close>

theorem boundary_keeps_ring:
  assumes "0 \<le> innerR s" and "innerR s \<le> outerR s" and "0 \<le> e"
    and "fr (motion c (controlsOf (ctl i)) (clampDt (delta i)) (innerR s) (outerR s) k) = Some r"
    and "0 < r"
  shows "(\<exists>x z. pos (fst (tick c i (k, s))) = Some (x, z)
            \<and> innerR s - e \<le> hypot x z \<and> hypot x z \<le> outerR s + e)
       \<and> (hypot x0 z0 = 30 \<longrightarrow>
            (\<exists>x z. boundary 12 22 (Some (hypot x0 z0)) (Some (x0, z0), v) = (Some (x, z), v * (6 / 10))
               \<and> hypot x z = 22))"
proof -
  obtain x z where p: "pos k = Some (x, z)" using motion_fr_Some [OF assms(4)] by blast
  define v1 where "v1 = longitudinal c (controlsOf (ctl i)) (clampDt (delta i)) (vel k)"
  define y1 where "y1 = steering c (controlsOf (ctl i)) (clampDt (delta i)) v1 (yaw k)"
  define x1 where "x1 = x + cos y1 * v1 * clampDt (delta i)"
  define z1 where "z1 = z + sin y1 * v1 * clampDt (delta i)"
  have r: "hypot x1 z1 = r"
    using assms(4) by (simp add: motion_Some [OF p] Let_def v1_def y1_def x1_def z1_def)
  have f: "fpos (motion c (controlsOf (ctl i)) (clampDt (delta i)) (innerR s) (outerR s) k)
      = fst (boundary (innerR s) (outerR s) (Some (hypot x1 z1)) (Some (x1, z1), v1))"
    by (simp add: motion_Some [OF p] Let_def v1_def y1_def x1_def z1_def)
  have "0 < hypot x1 z1" using r assms(5) by simp
  from boundary_in_ring [OF assms(1,2) this, of v1]
  obtain x' z' where "fst (boundary (innerR s) (outerR s) (Some (hypot x1 z1)) (Some (x1, z1), v1)) = Some (x', z')"
    "innerR s \<le> hypot x' z'" "hypot x' z' \<le> outerR s" by blast
  then have a: "\<exists>x z. pos (fst (tick c i (k, s))) = Some (x, z)
            \<and> innerR s - e \<le> hypot x z \<and> hypot x z \<le> outerR s + e"
    using assms(3) by (simp add: tick_pos f)
  have b: "hypot x0 z0 = 30 \<longrightarrow>
            (\<exists>x z. boundary 12 22 (Some (hypot x0 z0)) (Some (x0, z0), v) = (Some (x, z), v * (6 / 10))
               \<and> hypot x z = 22)"
  proof
    assume h: "hypot x0 z0 = 30"
    have e: "hypot (x0 * (22 / 30)) (z0 * (22 / 30)) = 22"
      using hypot_rescaled [of x0 z0 22] by (simp add: h)
    have "boundary 12 22 (Some (hypot x0 z0)) (Some (x0, z0), v)
        = (Some (x0 * (22 / 30), z0 * (22 / 30)), v * (6 / 10))"
      by (simp add: boundary_Some h)
    with e show "\<exists>x z. boundary 12 22 (Some (hypot x0 z0)) (Some (x0, z0), v) = (Some (x, z), v * (6 / 10))
               \<and> hypot x z = 22"
      by blast
  qed
  from a b show ?thesis by blast
qed

theorem boundary_keeps_ring_witness:
  "0 \<le> innerR raceStoreInit \<and> innerR raceStoreInit \<le> outerR raceStoreInit \<and> (0::real) \<le> 1 / 1000
   \<and> fr (motion sprinter (controlsOf (ctl (gasIn 30))) (clampDt (delta (gasIn 30)))
         (innerR raceStoreInit) (outerR raceStoreInit) wall0) = Some (117 / 5)
   \<and> (0::real) < 117 / 5
   \<and> pos (fst (tick sprinter (gasIn 30) (wall0, raceStoreInit))) = Some (22, 0)
   \<and> hypot 22 0 = 22
   \<and> hypot 30 0 = 30
   \<and> boundary 12 22 (Some (hypot 30 0)) (Some (30, 0), 10) = (Some (22, 0), 10 * (6 / 10))"
proof -
  have p: "pos wall0 = Some (22, 0)" by (simp add: wall0_def)
  have i: "innerR raceStoreInit = 12" "outerR raceStoreInit = 22" by (simp_all add: raceStoreInit_def)
  have m: "fr (motion sprinter (controlsOf (ctl (gasIn 30))) (clampDt (delta (gasIn 30))) 12 22 wall0)
      = Some (117 / 5)"
    by (simp add: motion_Some [OF p] boundary_Some Let_def)
       (simp add: wall0_def gasIn_def keys_def controlsOf_def clampDt_def longitudinal_def
          steering_def sprinter_def clamp_def Let_def)
  have t: "tick sprinter (gasIn 30) (wall0, raceStoreInit)
     = (\<lparr>vel = 84 / 5, yaw = 0, pos = Some (22, 0), lastAngle = Some 0,
         checkpoint = False, lastBoostTime = 0\<rparr>, raceStoreInit)"
    by (rule wall_tick) (simp_all add: i)
  show ?thesis
    using boundary_keeps_ring [of raceStoreInit "1 / 1000" sprinter "gasIn 30" wall0 "117 / 5" 30 0 10]
    by (simp add: m t i boundary_Some)
qed

subsection \<open>C7: the boost pads\<close>



subsection \<open>C8: the centre of the ring\<close>




subsection \<open>C9: the selected track\<close>



subsection \<open>C10: laps after the finish\<close>

text \<open>
  C10. In a session (started with \<open>currentLap = 1\<close>, \<open>finished = false\<close>) in which
  \<open>finished\<close> has become true after the callbacks \<open>pre\<close>: after any further callbacks
  \<open>ins\<close> the flag is still true, the lap counter has grown by the number of callbacks of
  \<open>ins\<close> in which the test of line 478 succeeded, so it is at least
  \<open>totalLaps + 1\<close> plus that number, and one more callback in which the test succeeds
  adds one again: nothing caps the counter.
\<close>

theorem laps_after_finish:
  assumes "currentLap s0 = 1" and "\<not> finished s0"
    and "finished (snd (run c pre (k0, s0)))"
  shows "finished (snd (run c (pre @ ins) (k0, s0)))
       \<and> currentLap (snd (run c (pre @ ins) (k0, s0)))
           = currentLap (snd (run c pre (k0, s0))) + completions c ins (run c pre (k0, s0))
       \<and> totalLaps s0 + 1 + completions c ins (run c pre (k0, s0))
           \<le> currentLap (snd (run c (pre @ ins) (k0, s0)))
       \<and> (if completes c i (run c (pre @ ins) (k0, s0))
          then currentLap (snd (tick c i (run c (pre @ ins) (k0, s0))))
                 = currentLap (snd (run c (pre @ ins) (k0, s0))) + 1
          else currentLap (snd (tick c i (run c (pre @ ins) (k0, s0))))
                 = currentLap (snd (run c (pre @ ins) (k0, s0))))"
proof -
  have p: "pending (snd (k0, s0))" using assms by (simp add: pending_def)
  have "pending (snd (run c pre (k0, s0))) \<or> latched (snd (run c pre (k0, s0)))"
    using run_pending [OF p] .
  with assms(3) have l: "latched (snd (run c pre (k0, s0)))" by (auto simp: pending_def)
  then have "latched (snd (run c ins (run c pre (k0, s0))))" by (rule run_latched)
  then have f: "finished (snd (run c (pre @ ins) (k0, s0)))" by (simp add: run_append latched_def)
  have n: "currentLap (snd (run c (pre @ ins) (k0, s0)))
           = currentLap (snd (run c pre (k0, s0))) + completions c ins (run c pre (k0, s0))"
    by (simp add: run_append run_completions)
  have t: "totalLaps s0 < currentLap (snd (run c pre (k0, s0)))"
    using l by (simp add: latched_def)
  show ?thesis using f n t by (simp add: tick_completes)
qed

theorem laps_after_finish_witness:
  "currentLap (store 1 1 False) = 1 \<and> \<not> finished (store 1 1 False)
   \<and> finished (snd (run sprinter [gasIn 30] (wiggle0, store 1 1 False)))
   \<and> finished (snd (run sprinter ([gasIn 30] @ [brakeIn (601 / 20), gasIn (301 / 10)]) (wiggle0, store 1 1 False)))
   \<and> completions sprinter [brakeIn (601 / 20), gasIn (301 / 10)] (run sprinter [gasIn 30] (wiggle0, store 1 1 False)) = 1
   \<and> currentLap (snd (run sprinter [gasIn 30] (wiggle0, store 1 1 False))) = 2
   \<and> currentLap (snd (run sprinter ([gasIn 30] @ [brakeIn (601 / 20), gasIn (301 / 10)]) (wiggle0, store 1 1 False))) = 3
   \<and> totalLaps (store 1 1 False) = 1"
  using laps_after_finish [of "store 1 1 False" sprinter "[gasIn 30]" wiggle0
      "[brakeIn (601 / 20), gasIn (301 / 10)]" "gasIn 40"]
  by (simp add: wiggle_tick1 wiggle_tick2 wiggle_tick3 tick_completes)

end
